theory Spec2Isabelle
  imports Main
begin

section \<open>ABI fragments: lexer, parameter types, fragments and value walker\<close>

text \<open>
  A shallow embedding of the fragment module (the lexer \<open>lex\<close>, the cursor class
  \<open>TokenString\<close>, the \<open>consume...\<close> helpers, \<open>verifyBasicType\<close>, the class
  \<open>ParamType\<close> with \<open>format\<close>, \<open>walk\<close>, \<open>walkAsync\<close> and \<open>from\<close>, and the six
  fragment classes).

  Strings are lists of 8-bit characters, read as the code units below 256 of the
  source's strings.  Exceptions are values of the type \<open>error\<close>, one constructor for
  each \<open>throw\<close> site; a function that can throw returns \<open>error + 'a\<close>.
\<close>

subsection \<open>Errors\<close>

datatype error =
    InvalidToken "char option" nat string
      \<comment> \<open>\<open>throwError(message)\<close> in \<open>lex\<close>: the character at \<open>offset\<close> (\<open>None\<close> for \<open>$EOI\<close>),
          \<open>offset\<close> and the message\<close>
  | MissingOpeningBracket
      \<comment> \<open>\<open>Error("missing opening bracket")\<close>\<close>
  | UnexpectedToken "char option" nat
      \<comment> \<open>\<open>Error(`unexpected token ${ JSON.stringify(cur[0]) } at position ${ offset }`)\<close>;
          \<open>None\<close> when \<open>cur\<close> is empty and \<open>cur[0]\<close> undefined\<close>
  | OutOfBounds
      \<comment> \<open>\<open>Error("out-of-bounds")\<close> in \<open>peek\<close>\<close>
  | ExpectedKeyword string
      \<comment> \<open>\<open>Error(`expected keyword ${ top.text }`)\<close>\<close>
  | ExpectedType string string
      \<comment> \<open>\<open>Error(`expected ${ type }; got ...`)\<close>: the type asked for and the text of the
          token found\<close>
  | BadStart
      \<comment> \<open>\<open>Error("bad start")\<close>\<close>
  | ExpectedGot string string
      \<comment> \<open>\<open>Error(`expected ${ type }, got ${ keyword }`)\<close> in \<open>consumeName\<close>\<close>
  | DuplicateKeywords string
  | ConflictingTypes "string list"
      \<comment> \<open>\<open>Error(`conflicting types: ${ included.join(", ") }`)\<close> in \<open>allowSingle\<close>\<close>
  | InvalidGas
  | UnexpectedTokens
      \<comment> \<open>\<open>Error(`unexpected tokens: ...`)\<close> in \<open>consumeEoi\<close>\<close>
  | InvalidArgument string string "string option"
      \<comment> \<open>\<open>assertArgument(check, message, name, value)\<close> with a false \<open>check\<close>: the message,
          the argument's name, and the value when it is a string\<close>
  | EmptyError
      \<comment> \<open>\<open>Error("")\<close> of the \<open>ParamType\<close> constructor's shape checks\<close>
  | IndexedNotAllowed
      \<comment> \<open>\<open>Error("")\<close> thrown by \<open>ParamType.from\<close> for the keyword \<open>indexed\<close> when
          \<open>allowIndexed\<close> is false\<close>
  | LeftoverTokens
  | InvalidArrayValue
  | ArrayWrongLength
  | InvalidTupleValue
  | UnnamedComponents
      \<comment> \<open>\<open>Error("cannot use object value with unnamed components")\<close>\<close>
  | MissingValue string
      \<comment> \<open>\<open>Error(`missing value for component ${ param.name }`)\<close>\<close>
  | UnsupportedOperation string
      \<comment> \<open>\<open>assert(false, message, "UNSUPPORTED_OPERATION", ...)\<close>\<close>
  | Todo
      \<comment> \<open>\<open>Error("@TODO")\<close>\<close>
  | TypeError
      \<comment> \<open>raised by the language itself: a property read or written on \<open>undefined\<close> or
          \<open>null\<close>, a call of something that is no function, a \<open>BigInt\<close> given to
          \<open>JSON.stringify\<close>\<close>
  | SyntaxError
      \<comment> \<open>raised by \<open>JSON.parse\<close>\<close>
  | NoReturn
      \<comment> \<open>not an exception: the \<open>while\<close> loop of \<open>popParams\<close> never exits\<close>

definition bind :: "error + 'a \<Rightarrow> ('a \<Rightarrow> error + 'b) \<Rightarrow> error + 'b" where
  "bind m f = (case m of Inl e \<Rightarrow> Inl e | Inr x \<Rightarrow> f x)"

fun mapM :: "('a \<Rightarrow> error + 'b) \<Rightarrow> 'a list \<Rightarrow> error + 'b list" where
  "mapM f [] = Inr []"
| "mapM f (x # xs) =
     (case f x of Inl e \<Rightarrow> Inl e
      | Inr y \<Rightarrow> (case mapM f xs of Inl e \<Rightarrow> Inl e | Inr ys \<Rightarrow> Inr (y # ys)))"

definition is_error :: "error + 'a \<Rightarrow> bool" where
  "is_error r = (case r of Inl e \<Rightarrow> e \<noteq> NoReturn | Inr x \<Rightarrow> False)"

subsection \<open>Character classes and the parser regexes\<close>

definition isWhitespace :: "char \<Rightarrow> bool" where
  \<comment> \<open>the class \<open>\s\<close> on code units below 256\<close>
  "isWhitespace c = (c \<in> set [CHR 0x09, CHR 0x0A, CHR 0x0B, CHR 0x0C, CHR 0x0D, CHR '' '', CHR 0xA0])"

definition isDigit :: "char \<Rightarrow> bool" where
  "isDigit c = (c \<in> set ''0123456789'')"

definition isIdStart :: "char \<Rightarrow> bool" where
  \<comment> \<open>\<open>[a-zA-Z$_]\<close>\<close>
  "isIdStart c = (c \<in> set ''abcdefghijklmnopqrstuvwxyzABCDEFGHIJKLMNOPQRSTUVWXYZ$_'')"

definition isIdChar :: "char \<Rightarrow> bool" where
  \<comment> \<open>\<open>[a-zA-Z0-9$_]\<close>\<close>
  "isIdChar c = (isIdStart c \<or> isDigit c)"

definition regexNumber :: "string \<Rightarrow> string option" where
  \<comment> \<open>\<open>^([0-9]+)\<close>: group 1\<close>
  "regexNumber s = (case s of [] \<Rightarrow> None
     | c # cs \<Rightarrow> if isDigit c then Some (takeWhile isDigit s) else None)"

definition regexIdentifier :: "string \<Rightarrow> string option" where
  \<comment> \<open>\<open>^([a-zA-Z$_][a-zA-Z0-9$_]*)\<close>: group 1; no anchor at the end\<close>
  "regexIdentifier s = (case s of [] \<Rightarrow> None
     | c # cs \<Rightarrow> if isIdStart c then Some (c # takeWhile isIdChar cs) else None)"

definition regexType :: "string \<Rightarrow> (string \<times> string option \<times> string option) option" where
  \<comment> \<open>\<open>^(address|bool|bytes([0-9]*)|string|u?int([0-9]*))\<close>: groups 1, 2 and 3, a group
      that takes no part in the match being \<open>None\<close> (undefined); no anchor at the end\<close>
  "regexType s =
     (if take 7 s = ''address'' then Some (''address'', None, None)
      else if take 4 s = ''bool'' then Some (''bool'', None, None)
      else if take 5 s = ''bytes'' then
        (let d = takeWhile isDigit (drop 5 s) in Some (''bytes'' @ d, Some d, None))
      else if take 6 s = ''string'' then Some (''string'', None, None)
      else if take 4 s = ''uint'' then
        (let d = takeWhile isDigit (drop 4 s) in Some (''uint'' @ d, None, Some d))
      else if take 3 s = ''int'' then
        (let d = takeWhile isDigit (drop 3 s) in Some (''int'' @ d, None, Some d))
      else None)"

definition digitValue :: "char \<Rightarrow> nat" where
  "digitValue c = of_char c - 48"

definition parseInt :: "string \<Rightarrow> nat" where
  \<comment> \<open>\<open>parseInt\<close> on a string of decimal digits, as every call below gives it.  The
      source's result is a double; the comparisons made on it (\<open>!== 0\<close>, \<open><= 32\<close>,
      \<open><= 256\<close>, and \<open>% 8\<close> once the value is at most 256) agree with the exact value.\<close>
  "parseInt s = foldl (\<lambda>n c. 10 * n + digitValue c) 0 s"

definition truthy :: "string option \<Rightarrow> bool" where
  \<comment> \<open>a string or undefined as a condition: undefined and the empty string are false\<close>
  "truthy m = (case m of None \<Rightarrow> False | Some s \<Rightarrow> s \<noteq> [])"

subsection \<open>verifyBasicType\<close>

definition verifyBasicType :: "string \<Rightarrow> error + string" where
  "verifyBasicType type =
     (case regexType type of
        None \<Rightarrow> Inl (InvalidArgument ''invalid type'' ''type'' (Some type))
      | Some (m1, m2, m3) \<Rightarrow>
          if type = ''uint'' then Inr ''uint256''
          else if type = ''int'' then Inr ''int256''
          else if truthy m2 then
            (let length = parseInt (the m2) in
             if length \<noteq> 0 \<and> length \<le> 32 then Inr type
             else Inl (InvalidArgument ''invalid bytes length'' ''type'' (Some type)))
          else if truthy m3 then
            (let size = parseInt (the m3) in
             if size \<noteq> 0 \<and> size \<le> 256 \<and> size mod 8 = 0 then Inr type
             else Inl (InvalidArgument ''invalid numeric width'' ''type'' (Some type)))
          else Inr type)"

subsection \<open>Tokens\<close>

datatype TokenType =
    EMPTY | OPEN_PAREN | CLOSE_PAREN | OPEN_BRACKET | CLOSE_BRACKET | COMMA | AT
  | BRACKET | KEYWORD | TYPE' | ID | NUMBER

definition TokenType_name :: "TokenType \<Rightarrow> string" where
  "TokenType_name t =
     (case t of EMPTY \<Rightarrow> [] | OPEN_PAREN \<Rightarrow> ''OPEN_PAREN'' | CLOSE_PAREN \<Rightarrow> ''CLOSE_PAREN''
      | OPEN_BRACKET \<Rightarrow> ''OPEN_BRACKET'' | CLOSE_BRACKET \<Rightarrow> ''CLOSE_BRACKET''
      | COMMA \<Rightarrow> ''COMMA'' | AT \<Rightarrow> ''AT'' | BRACKET \<Rightarrow> ''BRACKET'' | KEYWORD \<Rightarrow> ''KEYWORD''
      | TYPE' \<Rightarrow> ''TYPE'' | ID \<Rightarrow> ''ID'' | NUMBER \<Rightarrow> ''NUMBER'')"

record Token =
  tk_type :: TokenType
  tk_offset :: nat
  tk_text :: string
  tk_depth :: int
  tk_match :: int
  tk_linkBack :: int
  tk_linkNext :: int
  tk_value :: int

definition KwVisib :: "string list" where
  "KwVisib = [''constant'', ''external'', ''internal'', ''payable'', ''private'', ''public'',
     ''pure'', ''view'']"

definition KwTypes :: "string list" where
  "KwTypes = [''constructor'', ''error'', ''event'', ''fallback'', ''function'', ''receive'',
     ''struct'']"

definition KwModifiers :: "string list" where
  "KwModifiers = [''calldata'', ''memory'', ''storage'', ''payable'', ''indexed'']"

definition KwOther :: "string list" where
  "KwOther = [''tuple'', ''returns'']"

definition Keywords :: "string list" where
  "Keywords = KwTypes @ KwModifiers @ KwOther @ KwVisib"

definition SimpleTokens :: "char \<Rightarrow> TokenType option" where
  "SimpleTokens c =
     (if c = CHR ''('' then Some OPEN_PAREN else if c = CHR '')'' then Some CLOSE_PAREN
      else if c = CHR ''['' then Some OPEN_BRACKET else if c = CHR '']'' then Some CLOSE_BRACKET
      else if c = CHR '','' then Some COMMA else if c = CHR ''@'' then Some AT
      else None)"

definition getNumber :: "string \<Rightarrow> int" where
  \<comment> \<open>Modelled from the spec: \<open>getNumber\<close> of \<open>../utils/index.js\<close>, which is not among the
      sources; the spec (4.1) has the numeric literal's value attached to the array
      suffix as its fixed length.  The argument is a string of decimal digits.\<close>
  "getNumber s = int (parseInt s)"

subsection \<open>The lexer\<close>

text \<open>
  One pass of the \<open>while\<close> loop of \<open>lex\<close>.  \<open>rest\<close> is \<open>text.substring(offset)\<close> on entry;
  the result holds the text still to read and the updated \<open>offset\<close>, \<open>tokens\<close>,
  \<open>brackets\<close> and \<open>commas\<close>.  \<open>token\<close> is the object pushed on \<open>tokens\<close> at the start
  of the pass, so an assignment to one of its fields updates the last element.
\<close>

definition setLast :: "(Token \<Rightarrow> Token) \<Rightarrow> Token list \<Rightarrow> Token list" where
  "setLast f ts = ts[length ts - 1 := f (ts ! (length ts - 1))]"

definition lex_simple ::
  "TokenType \<Rightarrow> char \<Rightarrow> string \<Rightarrow> nat \<Rightarrow> Token list \<Rightarrow> nat list \<Rightarrow> nat list
     \<Rightarrow> error + (string \<times> nat \<times> Token list \<times> nat list \<times> nat list)" where
  \<comment> \<open>the branch \<open>if (type)\<close>: \<open>c\<close> is \<open>cur[0]\<close>, \<open>cs\<close> the text after it, \<open>offset\<close> already
      incremented, \<open>tokens\<close> with the new token last.  An index popped from \<open>brackets\<close>
      or \<open>commas\<close> that is no index of \<open>tokens\<close>, or nothing to pop from \<open>commas\<close>, makes
      the assignment to a field of \<open>tokens[...]\<close> a TypeError.\<close>
  "lex_simple ty c cs offset tokens0 brackets commas =
     (let tokens = setLast (\<lambda>t. t\<lparr>tk_type := ty, tk_text := [c]\<rparr>) tokens0;
          this = length tokens - 1 in
      if ty = OPEN_PAREN then
        Inr (cs, offset, tokens, brackets @ [this], commas @ [this])
      else if ty = CLOSE_PAREN then
        (if brackets = [] then
           Inl (InvalidToken (case cs of [] \<Rightarrow> None | d # ds \<Rightarrow> Some d) offset
                  ''no matching open bracket'')
         else
           let m = last brackets;
               tokens = setLast (\<lambda>t. t\<lparr>tk_match := int m\<rparr>) tokens in
           if m \<ge> length tokens then Inl TypeError
           else
             let tokens = tokens[m := (tokens ! m)\<lparr>tk_match := int this\<rparr>];
                 tokens = setLast (\<lambda>t. t\<lparr>tk_depth := tk_depth t - 1\<rparr>) tokens in
             if commas = [] \<or> last commas \<ge> length tokens then Inl TypeError
             else
               let b = last commas;
                   tokens = setLast (\<lambda>t. t\<lparr>tk_linkBack := int b\<rparr>) tokens;
                   tokens = tokens[b := (tokens ! b)\<lparr>tk_linkNext := int this\<rparr>] in
               Inr (cs, offset, tokens, butlast brackets, butlast commas))
      else if ty = COMMA then
        (if commas = [] \<or> last commas \<ge> length tokens then Inl TypeError
         else
           let b = last commas;
               tokens = setLast (\<lambda>t. t\<lparr>tk_linkBack := int b\<rparr>) tokens;
               tokens = tokens[b := (tokens ! b)\<lparr>tk_linkNext := int this\<rparr>] in
           Inr (cs, offset, tokens, brackets, butlast commas @ [this]))
      else if ty = OPEN_BRACKET then
        Inr (cs, offset, setLast (\<lambda>t. t\<lparr>tk_type := BRACKET\<rparr>) tokens, brackets, commas)
      else if ty = CLOSE_BRACKET then
        (let suffix = tk_text (last tokens);
             tokens = butlast tokens in
         if tokens \<noteq> [] \<and> tk_type (last tokens) = NUMBER then
           (let v = tk_text (last tokens);
                suffix = v @ suffix;
                tokens = butlast tokens in
            if tokens = [] then Inl TypeError
            else
              let tokens = setLast (\<lambda>t. t\<lparr>tk_value := getNumber v\<rparr>) tokens in
              if tk_type (last tokens) \<noteq> BRACKET then Inl MissingOpeningBracket
              else Inr (cs, offset, setLast (\<lambda>t. t\<lparr>tk_text := tk_text t @ suffix\<rparr>) tokens,
                        brackets, commas))
         else if tokens = [] \<or> tk_type (last tokens) \<noteq> BRACKET then Inl MissingOpeningBracket
         else Inr (cs, offset, setLast (\<lambda>t. t\<lparr>tk_text := tk_text t @ suffix\<rparr>) tokens,
                   brackets, commas))
      else Inr (cs, offset, tokens, brackets, commas))"

definition lex_step ::
  "string \<Rightarrow> nat \<Rightarrow> Token list \<Rightarrow> nat list \<Rightarrow> nat list
     \<Rightarrow> error + (string \<times> nat \<times> Token list \<times> nat list \<times> nat list)" where
  "lex_step rest offset0 tokens0 brackets commas =
     (let offset = offset0 + length (takeWhile isWhitespace rest);
          cur = dropWhile isWhitespace rest;
          token = \<lparr>tk_type = EMPTY, tk_offset = offset, tk_text = [],
                   tk_depth = int (length brackets), tk_match = - 1, tk_linkBack = - 1,
                   tk_linkNext = - 1, tk_value = - 1\<rparr>;
          tokens = tokens0 @ [token] in
      case cur of
        [] \<Rightarrow> Inl (UnexpectedToken None offset)
      | c # cs \<Rightarrow>
          (case SimpleTokens c of
             Some ty \<Rightarrow> lex_simple ty c cs (offset + 1) tokens brackets commas
           | None \<Rightarrow>
               (case regexIdentifier cur of
                  Some m \<Rightarrow>
                    (let ty = (if m \<in> set Keywords then KEYWORD
                               else if regexType m \<noteq> None then TYPE' else ID) in
                     Inr (drop (length m) cur, offset + length m,
                          setLast (\<lambda>t. t\<lparr>tk_text := m, tk_type := ty\<rparr>) tokens,
                          brackets, commas))
                | None \<Rightarrow>
                    (case regexNumber cur of
                       Some m \<Rightarrow>
                         Inr (drop (length m) cur, offset + length m,
                              setLast (\<lambda>t. t\<lparr>tk_text := m, tk_type := NUMBER\<rparr>) tokens,
                              brackets, commas)
                     | None \<Rightarrow> Inl (UnexpectedToken (Some c) offset)))))"

lemma lex_simple_rest:
  "lex_simple ty c cs offset tokens brackets commas = Inr (rest', st) \<Longrightarrow> rest' = cs"
  by (auto simp: lex_simple_def Let_def split: if_splits)

lemma lex_step_shorter:
  assumes "lex_step rest offset tokens brackets commas = Inr (rest', st)"
  shows "length rest' < length rest"
proof -
  let ?cur = "dropWhile isWhitespace rest"
  have le: "length ?cur \<le> length rest"
    by (simp add: length_dropWhile_le)
  from assms obtain c cs where cur: "?cur = c # cs"
    by (cases ?cur) (auto simp: lex_step_def Let_def)
  have "length rest' < length ?cur"
  proof (cases "SimpleTokens c")
    case (Some ty)
    with assms cur have "rest' = cs"
      by (auto simp: lex_step_def Let_def dest: lex_simple_rest)
    with cur show ?thesis by simp
  next
    case None
    with assms cur show ?thesis
      by (auto simp: lex_step_def Let_def regexIdentifier_def regexNumber_def
               split: option.splits if_splits)
  qed
  with le show ?thesis by simp
qed

function lex_loop ::
  "string \<Rightarrow> nat \<Rightarrow> Token list \<Rightarrow> nat list \<Rightarrow> nat list \<Rightarrow> error + Token list" where
  "lex_loop rest offset tokens brackets commas =
     (if rest = [] then Inr tokens
      else case lex_step rest offset tokens brackets commas of
             Inl e \<Rightarrow> Inl e
           | Inr (rest', offset', tokens', brackets', commas') \<Rightarrow>
               lex_loop rest' offset' tokens' brackets' commas')"
  by pat_completeness auto
termination
  by (relation "measure (\<lambda>(rest, offset, tokens, brackets, commas). length rest)")
     (auto dest: lex_step_shorter)

declare lex_loop.simps [simp del]

record TokenString =
  ts_offset :: int
  ts_tokens :: "Token list"

definition new_TokenString :: "Token list \<Rightarrow> TokenString" where
  "new_TokenString tokens = \<lparr>ts_offset = 0, ts_tokens = tokens\<rparr>"

definition lex :: "string \<Rightarrow> error + TokenString" where
  "lex text = bind (lex_loop text 0 [] [] []) (\<lambda>tokens. Inr (new_TokenString tokens))"

lemma bind_Inl [simp, code]: "bind (Inl e) f = Inl e"
  by (simp add: bind_def)

lemma bind_Inr [simp, code]: "bind (Inr x) f = f x"
  by (simp add: bind_def)

lemma bind_cong [fundef_cong]:
  "m = m' \<Longrightarrow> (\<And>x. m' = Inr x \<Longrightarrow> f x = f' x) \<Longrightarrow> bind m f = bind m' f'"
  by (cases m') (simp_all add: bind_def)

lemma mapM_cong [fundef_cong]:
  "xs = ys \<Longrightarrow> (\<And>x. x \<in> set ys \<Longrightarrow> f x = g x) \<Longrightarrow> mapM f xs = mapM g ys"
  by (induction ys arbitrary: xs) (auto split: sum.splits)

subsection \<open>TokenString\<close>

definition ts_length :: "TokenString \<Rightarrow> int" where
  "ts_length ts = int (length (ts_tokens ts)) - ts_offset ts"

definition js_slice :: "'a list \<Rightarrow> int \<Rightarrow> int \<Rightarrow> 'a list" where
  \<comment> \<open>\<open>Array.prototype.slice(from, to)\<close>: a negative index counts from the end, and both
      are clamped to the array\<close>
  "js_slice xs from to =
     (let len = int (length xs);
          k = (if from < 0 then max (len + from) 0 else min from len);
          final = (if to < 0 then max (len + to) 0 else min to len) in
      take (nat (final - k)) (drop (nat k) xs))"

definition subTokenString :: "Token list \<Rightarrow> int \<Rightarrow> int \<Rightarrow> TokenString" where
  "subTokenString tokens from to =
     new_TokenString (map (\<lambda>t. t\<lparr>tk_match := tk_match t - from,
                                  tk_linkBack := tk_linkBack t - from,
                                  tk_linkNext := tk_linkNext t - from\<rparr>)
                          (js_slice tokens from to))"

definition peek :: "TokenString \<Rightarrow> error + Token" where
  \<comment> \<open>With a negative \<open>#offset\<close> the source returns \<open>this.#tokens[offset]\<close>, which is
      undefined, and every caller reads a property of the result at once: a TypeError.\<close>
  "peek ts =
     (if ts_offset ts \<ge> int (length (ts_tokens ts)) then Inl OutOfBounds
      else if ts_offset ts < 0 then Inl TypeError
      else Inr (ts_tokens ts ! nat (ts_offset ts)))"

definition pop :: "TokenString \<Rightarrow> error + (Token \<times> TokenString)" where
  "pop ts = bind (peek ts) (\<lambda>result. Inr (result, ts\<lparr>ts_offset := ts_offset ts + 1\<rparr>))"

definition peekType :: "TokenString \<Rightarrow> TokenType \<Rightarrow> error + string option" where
  "peekType ts type =
     (if ts_length ts = 0 then Inr None
      else bind (peek ts) (\<lambda>top. Inr (if tk_type top = type then Some (tk_text top) else None)))"

definition peekKeyword :: "TokenString \<Rightarrow> string list \<Rightarrow> error + string option" where
  "peekKeyword ts allowed =
     bind (peekType ts KEYWORD) (\<lambda>top.
       Inr (case top of None \<Rightarrow> None
            | Some k \<Rightarrow> if k \<in> set allowed then Some k else None))"

definition popKeyword :: "TokenString \<Rightarrow> string list \<Rightarrow> error + (string \<times> TokenString)" where
  "popKeyword ts allowed =
     bind (peek ts) (\<lambda>top.
       if tk_type top \<noteq> KEYWORD \<or> tk_text top \<notin> set allowed
       then Inl (ExpectedKeyword (tk_text top))
       else bind (pop ts) (\<lambda>(t, ts). Inr (tk_text t, ts)))"

definition popType :: "TokenString \<Rightarrow> TokenType \<Rightarrow> error + (string \<times> TokenString)" where
  "popType ts type =
     bind (peek ts) (\<lambda>top.
       if tk_type top \<noteq> type then Inl (ExpectedType (TokenType_name type) (tk_text top))
       else bind (pop ts) (\<lambda>(t, ts). Inr (tk_text t, ts)))"

definition popParen :: "TokenString \<Rightarrow> error + (TokenString \<times> TokenString)" where
  "popParen ts =
     bind (peek ts) (\<lambda>top.
       if tk_type top \<noteq> OPEN_PAREN then Inl BadStart
       else Inr (subTokenString (ts_tokens ts) (ts_offset ts + 1) (tk_match top + 1),
                 ts\<lparr>ts_offset := tk_match top + 1\<rparr>))"

text \<open>
  The \<open>while\<close> loop of \<open>popParams\<close>.  What a pass does depends on \<open>#offset\<close> alone, and
  \<open>peek\<close> throws unless \<open>0 \<le> #offset < #tokens.length\<close>; so a run that makes more
  passes than there are tokens is at an offset for the second time and never leaves
  the loop.  The loop is therefore given \<open>#tokens.length + 1\<close> passes, and \<open>NoReturn\<close>
  stands for a run that needs more.
\<close>

fun popParams_loop ::
  "nat \<Rightarrow> Token list \<Rightarrow> int \<Rightarrow> int \<Rightarrow> TokenString list \<Rightarrow> error + TokenString list" where
  "popParams_loop 0 tokens offset m result = Inl NoReturn"
| "popParams_loop (Suc fuel) tokens offset m result =
     (if offset < m - 1 then
        bind (peek \<lparr>ts_offset = offset, ts_tokens = tokens\<rparr>) (\<lambda>t.
          let link = tk_linkNext t in
          popParams_loop fuel tokens link m (result @ [subTokenString tokens (offset + 1) link]))
      else Inr result)"

declare popParams_loop.simps [simp del]

definition popParams :: "TokenString \<Rightarrow> error + (TokenString list \<times> TokenString)" where
  "popParams ts =
     bind (peek ts) (\<lambda>top.
       if tk_type top \<noteq> OPEN_PAREN then Inl BadStart
       else bind (popParams_loop (length (ts_tokens ts) + 1) (ts_tokens ts) (ts_offset ts)
                    (tk_match top) [])
              (\<lambda>result. Inr (result, ts\<lparr>ts_offset := tk_match top + 1\<rparr>)))"

subsection \<open>The consume functions\<close>

definition consumeName :: "string \<Rightarrow> TokenString \<Rightarrow> error + (string \<times> TokenString)" where
  "consumeName type tokens =
     bind (peekKeyword tokens KwTypes) (\<lambda>k.
       case k of
         None \<Rightarrow> popType tokens ID
       | Some _ \<Rightarrow>
           bind (pop tokens) (\<lambda>(t, tokens).
             if tk_text t \<noteq> type then Inl (ExpectedGot type (tk_text t))
             else popType tokens ID))"

lemma peekType_Some_bounds:
  "peekType ts ty = Inr (Some k) \<Longrightarrow> 0 \<le> ts_offset ts \<and> ts_offset ts < int (length (ts_tokens ts))"
  by (auto simp: peekType_def peek_def bind_def split: if_splits)

function consumeKeywords_loop ::
  "TokenString \<Rightarrow> string list option \<Rightarrow> string list \<Rightarrow> error + (string list \<times> TokenString)" where
  "consumeKeywords_loop tokens allowed keywords =
     bind (peekType tokens KEYWORD) (\<lambda>k.
       case k of
         None \<Rightarrow> Inr (keywords, tokens)
       | Some keyword \<Rightarrow>
           if (case allowed of None \<Rightarrow> False | Some a \<Rightarrow> keyword \<notin> set a)
           then Inr (keywords, tokens)
           else if keyword \<in> set keywords then Inl (DuplicateKeywords keyword)
           else consumeKeywords_loop (tokens\<lparr>ts_offset := ts_offset tokens + 1\<rparr>) allowed
                  (keywords @ [keyword]))"
  by pat_completeness auto
termination
  by (relation "measure (\<lambda>(tokens, allowed, keywords). nat (ts_length tokens))")
     (auto simp: ts_length_def dest!: peekType_Some_bounds)

declare consumeKeywords_loop.simps [simp del]

definition consumeKeywords ::
  "TokenString \<Rightarrow> string list option \<Rightarrow> error + (string list \<times> TokenString)" where
  \<comment> \<open>the set \<open>keywords\<close> as the list of its elements in the order they were added\<close>
  "consumeKeywords tokens allowed = consumeKeywords_loop tokens allowed []"

definition forin_keys_of_SetIterator :: "string list \<Rightarrow> string list" where
  \<comment> \<open>The keys that \<open>for (const key in allowed.keys())\<close> visits.  \<open>allowed.keys()\<close> is a
      Set iterator, and \<open>for ... in\<close> enumerates the enumerable string-keyed properties
      of that object, of which it has none (\<open>for ... of\<close> would visit the elements).\<close>
  "forin_keys_of_SetIterator allowed = []"

definition allowSingle :: "string list \<Rightarrow> string list \<Rightarrow> error + unit" where
  "allowSingle set0 allowed =
     (let included = filter (\<lambda>key. key \<in> set set0) (forin_keys_of_SetIterator allowed) in
      if length included > 1 then Inl (ConflictingTypes included) else Inr ())"

definition consumeMutability :: "TokenString \<Rightarrow> error + (string \<times> TokenString)" where
  "consumeMutability tokens =
     bind (consumeKeywords tokens (Some KwVisib)) (\<lambda>(modifiers, tokens).
     bind (allowSingle modifiers [''constant'', ''payable'', ''nonpayable'']) (\<lambda>_.
     bind (allowSingle modifiers [''pure'', ''view'', ''payable'', ''nonpayable'']) (\<lambda>_.
       if ''view'' \<in> set modifiers then Inr (''view'', tokens)
       else if ''pure'' \<in> set modifiers then Inr (''pure'', tokens)
       else if ''payable'' \<in> set modifiers then Inr (''payable'', tokens)
       else if ''nonpayable'' \<in> set modifiers then Inr (''nonpayable'', tokens)
       else if ''constant'' \<in> set modifiers then Inr (''view'', tokens)
       else Inr (''nonpayable'', tokens))))"

definition getBigInt :: "string \<Rightarrow> int" where
  \<comment> \<open>Modelled from the spec: \<open>getBigInt\<close> of \<open>../utils/index.js\<close>, which is not among the
      sources; the spec (4.4) has \<open>@<gas>\<close> give the optional integer \<open>gas\<close>.  The argument
      is the text of a NUMBER token, a string of decimal digits.\<close>
  "getBigInt s = int (parseInt s)"

definition consumeGas :: "TokenString \<Rightarrow> error + (int option \<times> TokenString)" where
  "consumeGas tokens =
     bind (peekType tokens AT) (\<lambda>a.
       if truthy a then
         bind (pop tokens) (\<lambda>(_, tokens).
         bind (peekType tokens NUMBER) (\<lambda>n.
           if truthy n then bind (pop tokens) (\<lambda>(t, tokens). Inr (Some (getBigInt (tk_text t)), tokens))
           else Inl InvalidGas))
       else Inr (None, tokens))"

definition consumeEoi :: "TokenString \<Rightarrow> error + unit" where
  "consumeEoi tokens = (if ts_length tokens \<noteq> 0 then Inl UnexpectedTokens else Inr ())"

subsection \<open>Values and JSON.stringify\<close>

datatype jsval =
    VUndefined | VNull | VBool bool | VNum int | VBigInt int | VStr string
  | VArr "jsval list"
  | VObj "(string \<times> jsval) list"
      \<comment> \<open>a plain object (an object literal, the result of \<open>JSON.parse\<close>) as the list of
          its own properties, each key once, in insertion order; its prototype is
          \<open>Object.prototype\<close>\<close>
  | VFunction string
      \<comment> \<open>the built-in function that \<open>Object.prototype\<close> holds under this key\<close>
  | VObjectPrototype
      \<comment> \<open>the object \<open>Object.prototype\<close>\<close>

fun join :: "string \<Rightarrow> string list \<Rightarrow> string" where
  "join sep [] = []"
| "join sep [x] = x"
| "join sep (x # y # ys) = x @ sep @ join sep (y # ys)"

definition decimalDigit :: "nat \<Rightarrow> char" where
  "decimalDigit d = ''0123456789'' ! (d mod 10)"

function decimal :: "nat \<Rightarrow> string" where
  "decimal n = (if n div 10 = 0 then [] else decimal (n div 10)) @ [decimalDigit n]"
  by pat_completeness auto
termination
  by (relation "measure id") auto

declare decimal.simps [simp del]

definition String :: "int \<Rightarrow> string" where
  \<comment> \<open>\<open>String(n)\<close> and \<open>n.toString()\<close> for an integer\<close>
  "String n = (if n < 0 then ''-'' @ decimal (nat (- n)) else decimal (nat n))"

definition hexDigit :: "nat \<Rightarrow> char" where
  "hexDigit n = ''0123456789abcdef'' ! (n mod 16)"

definition json_escape :: "char \<Rightarrow> string" where
  "json_escape c =
     (if c = CHR 0x22 then [CHR 0x5C, CHR 0x22]
      else if c = CHR 0x5C then [CHR 0x5C, CHR 0x5C]
      else if c = CHR 0x08 then [CHR 0x5C, CHR ''b'']
      else if c = CHR 0x09 then [CHR 0x5C, CHR ''t'']
      else if c = CHR 0x0A then [CHR 0x5C, CHR ''n'']
      else if c = CHR 0x0C then [CHR 0x5C, CHR ''f'']
      else if c = CHR 0x0D then [CHR 0x5C, CHR ''r'']
      else if (of_char c :: nat) < 32 then
        [CHR 0x5C, CHR ''u'', CHR ''0'', CHR ''0'', hexDigit (of_char c div 16),
         hexDigit (of_char c mod 16)]
      else [c])"

definition json_quote :: "string \<Rightarrow> string" where
  "json_quote s = [CHR 0x22] @ concat (map json_escape s) @ [CHR 0x22]"

text \<open>
  \<open>JSON.stringify\<close> without indentation.  \<open>serialize\<close> gives \<open>None\<close> for a value that has
  no JSON text (undefined, a function): as an element of an array it is written \<open>null\<close>,
  as the value of a property the property is left out.  A \<open>BigInt\<close> is a TypeError.
  \<open>Object.prototype\<close> has no enumerable property of its own.
\<close>

fun serialize :: "jsval \<Rightarrow> error + string option" where
  "serialize VUndefined = Inr None"
| "serialize VNull = Inr (Some ''null'')"
| "serialize (VBool b) = Inr (Some (if b then ''true'' else ''false''))"
| "serialize (VNum n) = Inr (Some (String n))"
| "serialize (VBigInt n) = Inl TypeError"
| "serialize (VStr s) = Inr (Some (json_quote s))"
| "serialize (VArr xs) =
     bind (mapM serialize xs) (\<lambda>rs.
       Inr (Some (''['' @ join '','' (map (\<lambda>r. case r of None \<Rightarrow> ''null'' | Some t \<Rightarrow> t) rs)
                   @ '']'')))"
| "serialize (VObj kvs) =
     bind (mapM (\<lambda>kv. bind (serialize (snd kv)) (\<lambda>r. Inr (fst kv, r))) kvs) (\<lambda>rs.
       Inr (Some (''{'' @ join '','' (concat (map (\<lambda>(k, r). case r of None \<Rightarrow> []
                                            | Some t \<Rightarrow> [json_quote k @ '':'' @ t]) rs))
                   @ ''}'')))"
| "serialize (VFunction k) = Inr None"
| "serialize VObjectPrototype = Inr (Some ''{}'')"

definition JSON_stringify :: "jsval \<Rightarrow> error + string" where
  \<comment> \<open>called on objects only, for which the result is a string\<close>
  "JSON_stringify v = bind (serialize v) (\<lambda>r. Inr (case r of None \<Rightarrow> ''undefined'' | Some t \<Rightarrow> t))"

subsection \<open>ParamType\<close>

datatype ParamType = ParamType
  (pt_name: string)
  (pt_type: string)
  (pt_baseType: string)
  (pt_indexed: "bool option")
  (pt_components: "ParamType list option")
  (pt_arrayLength: "int option")
  (pt_arrayChildren: "ParamType option")

datatype FormatType = sighash | minimal | full | json

definition new_ParamType ::
  "string \<Rightarrow> string \<Rightarrow> string \<Rightarrow> bool option \<Rightarrow> ParamType list option \<Rightarrow> int option
     \<Rightarrow> ParamType option \<Rightarrow> error + ParamType" where
  \<comment> \<open>the constructor; \<open>indexed\<close> null and undefined are both \<open>None\<close>\<close>
  "new_ParamType name type baseType indexed components arrayLength arrayChildren =
     (if (if baseType = ''array'' then arrayLength = None \<or> arrayChildren = None
          else arrayLength \<noteq> None \<or> arrayChildren \<noteq> None) then Inl EmptyError
      else if (if baseType = ''tuple'' then components = None else components \<noteq> None)
      then Inl EmptyError
      else Inr (ParamType name type baseType indexed components arrayLength arrayChildren))"

definition isArray :: "ParamType \<Rightarrow> bool" where
  "isArray p = (pt_baseType p = ''array'')"

definition isTuple :: "ParamType \<Rightarrow> bool" where
  "isTuple p = (pt_baseType p = ''tuple'')"

definition isIndexable :: "ParamType \<Rightarrow> bool" where
  "isIndexable p = (pt_indexed p \<noteq> None)"

text \<open>
  \<open>format\<close> for the formats other than \<open>json\<close>.  A \<open>ParamType\<close> made by the constructor
  has \<open>arrayChildren\<close> when it is an array and \<open>components\<close> when it is a tuple; on
  other values of the datatype the source would read a property of null.
\<close>

fun ParamType_format_text :: "FormatType \<Rightarrow> ParamType \<Rightarrow> error + string" where
  "ParamType_format_text format (ParamType name type baseType indexed components arrayLength
       arrayChildren) =
     bind
       (if baseType = ''array'' then
          (case arrayChildren of
             None \<Rightarrow> Inl TypeError
           | Some child \<Rightarrow>
               bind (ParamType_format_text format child) (\<lambda>r.
                 Inr (r @ ''['' @ (case arrayLength of None \<Rightarrow> ''null''
                                   | Some n \<Rightarrow> if n < 0 then [] else String n) @ '']'')))
        else if baseType = ''tuple'' then
          (case components of
             None \<Rightarrow> Inl TypeError
           | Some comps \<Rightarrow>
               bind (mapM (ParamType_format_text format) comps) (\<lambda>rs.
                 Inr ((if format \<noteq> sighash then type else []) @ ''(''
                      @ join (if format = full then '', '' else '','') rs @ '')'')))
        else Inr type)
       (\<lambda>result.
          if format \<noteq> sighash then
            Inr (result @ (if indexed = Some True then '' indexed'' else [])
                 @ (if format = full \<and> name \<noteq> [] then '' '' @ name else []))
          else Inr result)"

text \<open>
  \<open>format("json")\<close> is \<open>JSON.stringify(result)\<close>.  \<open>ParamType_json\<close> is the object
  \<open>result\<close> without the properties whose value is undefined, which
  \<open>JSON.stringify\<close> leaves out: it is what \<open>JSON.parse(c.format("json"))\<close> gives back
  for a component \<open>c\<close>.
\<close>

fun ParamType_json :: "ParamType \<Rightarrow> error + jsval" where
  "ParamType_json (ParamType name type baseType indexed components arrayLength arrayChildren) =
     bind
       (if baseType = ''tuple'' then
          (case components of
             None \<Rightarrow> Inl TypeError
           | Some comps \<Rightarrow>
               bind (mapM ParamType_json comps) (\<lambda>cs. Inr [(''components'', VArr cs)]))
        else Inr [])
       (\<lambda>components_property.
          Inr (VObj ([(''type'', VStr (if baseType = ''tuple'' then ''tuple'' else type))]
                     @ (if name \<noteq> [] then [(''name'', VStr name)] else [])
                     @ (case indexed of None \<Rightarrow> [] | Some b \<Rightarrow> [(''indexed'', VBool b)])
                     @ components_property)))"

definition ParamType_format :: "FormatType \<Rightarrow> ParamType \<Rightarrow> error + string" where
  "ParamType_format format p =
     (if format = json then bind (ParamType_json p) JSON_stringify
      else ParamType_format_text format p)"

subsection \<open>ParamType.from on a TokenString and on text\<close>

lemma pop_offset:
  "pop ts = Inr (t, ts') \<Longrightarrow>
     ts' = ts\<lparr>ts_offset := ts_offset ts + 1\<rparr> \<and> 0 \<le> ts_offset ts
       \<and> ts_offset ts < int (length (ts_tokens ts))"
  by (auto simp: pop_def peek_def bind_def split: if_splits)

text \<open>The loop \<open>while (obj.length && obj.peekType("BRACKET"))\<close>.\<close>

function ParamType_array_loop ::
  "TokenString \<Rightarrow> string \<Rightarrow> string \<Rightarrow> ParamType list option \<Rightarrow> int option \<Rightarrow> ParamType option
     \<Rightarrow> error + (TokenString \<times> string \<times> string \<times> ParamType list option \<times> int option
                 \<times> ParamType option)" where
  "ParamType_array_loop obj type baseType comps arrayLength arrayChildren =
     (if ts_length obj \<noteq> 0 then
        bind (peekType obj BRACKET) (\<lambda>b.
          if truthy b then
            bind (pop obj) (\<lambda>(bracket, obj').
            bind (new_ParamType [] type baseType None comps arrayLength arrayChildren) (\<lambda>child.
              ParamType_array_loop obj' (type @ tk_text bracket) ''array'' None
                (Some (tk_value bracket)) (Some child)))
          else Inr (obj, type, baseType, comps, arrayLength, arrayChildren))
      else Inr (obj, type, baseType, comps, arrayLength, arrayChildren))"
  by pat_completeness auto
termination
  by (relation "measure (\<lambda>(obj, type, baseType, comps, arrayLength, arrayChildren).
                  nat (ts_length obj))")
     (auto simp: ts_length_def dest!: pop_offset)

declare ParamType_array_loop.simps [simp del]

lemma js_slice_length:
  "0 < from \<Longrightarrow> xs \<noteq> [] \<Longrightarrow> length (js_slice xs from to) < length xs"
  by (auto simp: js_slice_def Let_def min_def max_def)

lemma popParams_loop_shorter:
  "popParams_loop fuel tokens offset m result = Inr ts
     \<Longrightarrow> \<forall>t \<in> set result. length (ts_tokens t) < length tokens
     \<Longrightarrow> \<forall>t \<in> set ts. length (ts_tokens t) < length tokens"
proof (induction fuel arbitrary: offset result)
  case 0
  then show ?case by (simp add: popParams_loop.simps)
next
  case (Suc fuel)
  show ?case
  proof (cases "offset < m - 1")
    case False
    with Suc.prems show ?thesis by (simp add: popParams_loop.simps)
  next
    case True
    with Suc.prems obtain t where
      t: "peek \<lparr>ts_offset = offset, ts_tokens = tokens\<rparr> = Inr t" and
      r: "popParams_loop fuel tokens (tk_linkNext t) m
            (result @ [subTokenString tokens (offset + 1) (tk_linkNext t)]) = Inr ts"
      by (auto simp: popParams_loop.simps bind_def Let_def split: sum.splits)
    from t have "0 \<le> offset" "tokens \<noteq> []"
      by (auto simp: peek_def split: if_splits)
    then have "length (ts_tokens (subTokenString tokens (offset + 1) (tk_linkNext t)))
                 < length tokens"
      by (simp add: subTokenString_def new_TokenString_def js_slice_length)
    with Suc.prems(2) show ?thesis
      by (intro Suc.IH [OF r]) auto
  qed
qed

lemma popParams_shorter:
  assumes "popParams ts = Inr (subs, ts')" and "t \<in> set subs"
  shows "length (ts_tokens t) < length (ts_tokens ts) \<and> ts_tokens ts' = ts_tokens ts"
proof -
  from assms(1) obtain top where top: "peek ts = Inr top"
    unfolding popParams_def by (cases "peek ts") (auto simp: bind_def)
  with assms(1) have
    loop: "popParams_loop (length (ts_tokens ts) + 1) (ts_tokens ts) (ts_offset ts)
             (tk_match top) [] = Inr subs" and
    ts': "ts' = ts\<lparr>ts_offset := tk_match top + 1\<rparr>"
    unfolding popParams_def by (auto simp: bind_def split: sum.splits if_splits)
  from popParams_loop_shorter [OF loop] assms(2) ts' show ?thesis by simp
qed

lemma consumeKeywords_loop_tokens:
  "consumeKeywords_loop tokens allowed acc = Inr (ks, tokens')
     \<Longrightarrow> ts_tokens tokens' = ts_tokens tokens"
proof (induction tokens allowed acc rule: consumeKeywords_loop.induct)
  case (1 tokens allowed acc)
  from "1.prems" show ?case
    by (subst (asm) consumeKeywords_loop.simps)
       (auto simp: bind_def split: sum.splits option.splits if_splits dest: "1.IH")
qed

function ParamType_from_tokens :: "TokenString \<Rightarrow> bool \<Rightarrow> error + ParamType" where
  "ParamType_from_tokens obj allowIndexed =
     bind (consumeKeywords obj (Some [''tuple''])) (\<lambda>(kws, obj1).
     bind (if ''tuple'' \<in> set kws then Inr True
           else bind (peekType obj1 OPEN_PAREN) (\<lambda>p. Inr (truthy p))) (\<lambda>tuple.
     bind
       (if tuple then
          bind (popParams obj1) (\<lambda>(ts, obj2).
          bind (mapM (\<lambda>t. ParamType_from_tokens t False) ts) (\<lambda>comps.
          bind (mapM (ParamType_format sighash) comps) (\<lambda>fs.
            Inr (obj2, ''tuple('' @ join '','' fs @ '')'', ''tuple'', Some comps))))
        else
          bind (popType obj1 TYPE') (\<lambda>(t, obj2).
          bind (verifyBasicType t) (\<lambda>type.
            Inr (obj2, type, type, None))))
       (\<lambda>(obj2, type, baseType, comps).
     bind (ParamType_array_loop obj2 type baseType comps None None)
       (\<lambda>(obj3, type, baseType, comps, arrayLength, arrayChildren).
     bind (consumeKeywords obj3 (Some KwModifiers)) (\<lambda>(keywords, obj4).
     bind (if ''indexed'' \<in> set keywords
           then (if \<not> allowIndexed then Inl IndexedNotAllowed else Inr (Some True))
           else Inr None) (\<lambda>indexed.
     bind (peekType obj4 ID) (\<lambda>i.
     bind (if truthy i then bind (pop obj4) (\<lambda>(t, obj5). Inr (tk_text t, obj5))
           else Inr ([], obj4)) (\<lambda>(name, obj5).
       if ts_length obj5 \<noteq> 0 then Inl LeftoverTokens
       else new_ParamType name type baseType indexed comps arrayLength arrayChildren))))))))"
  by pat_completeness auto
termination
proof (relation "measure (\<lambda>(obj, allowIndexed). length (ts_tokens obj))", goal_cases)
  case 1
  show ?case by simp
next
  case (2 obj allowIndexed x kws obj1 tuple x' ts obj2 t)
  from 2 have "ts_tokens obj1 = ts_tokens obj"
    by (auto simp: consumeKeywords_def dest: consumeKeywords_loop_tokens)
  moreover from 2 have "length (ts_tokens t) < length (ts_tokens obj1)"
    by (auto dest: popParams_shorter)
  ultimately show ?case by simp
qed

declare ParamType_from_tokens.simps [simp del]

definition ParamType_from_string :: "string \<Rightarrow> bool \<Rightarrow> error + ParamType" where
  "ParamType_from_string obj allowIndexed =
     bind (lex obj) (\<lambda>tokens. ParamType_from_tokens tokens allowIndexed)"

definition consumeParams :: "TokenString \<Rightarrow> bool \<Rightarrow> error + (ParamType list \<times> TokenString)" where
  "consumeParams tokens allowIndexed =
     bind (popParams tokens) (\<lambda>(ts, tokens).
     bind (mapM (\<lambda>t. ParamType_from_tokens t allowIndexed) ts) (\<lambda>ps. Inr (ps, tokens)))"

subsection \<open>ParamType.from on an interchange object\<close>

datatype JsonFragmentType = JsonFragmentType
  (jt_name: "string option")
  (jt_indexed: "bool option")
  (jt_type: "string option")
  (jt_internalType: "string option")
  (jt_components: "JsonFragmentType list option")
  \<comment> \<open>the interface \<open>JsonFragmentType\<close>; \<open>None\<close> is a property that is absent\<close>

definition isLineTerminator :: "char \<Rightarrow> bool" where
  "isLineTerminator c = (c = CHR 0x0A \<or> c = CHR 0x0D)"

definition regexArrayType :: "string \<Rightarrow> (string \<times> string) option" where
  \<comment> \<open>\<open>/^(.*)\[([0-9]*)\]$/\<close>: groups 1 and 2.  The string has to end in \<open>[\<close>, digits,
      \<open>]\<close>; the digits are then the longest run of digits before the final \<open>]\<close>, and
      group 1, the text before that \<open>[\<close>, holds no line terminator.\<close>
  "regexArrayType s =
     (if s \<noteq> [] \<and> last s = CHR '']'' then
        (let body = butlast s;
             ds = rev (takeWhile isDigit (rev body));
             pre = take (length body - length ds) body in
         if pre \<noteq> [] \<and> last pre = CHR ''['' \<and> \<not> (\<exists>c \<in> set (butlast pre). isLineTerminator c)
         then Some (butlast pre, ds) else None)
      else None)"

fun components_size :: "JsonFragmentType \<Rightarrow> nat" where
  "components_size (JsonFragmentType name indexed type internalType components) =
     (case components of None \<Rightarrow> 0 | Some cs \<Rightarrow> Suc (sum_list (map components_size cs)))"

lemma components_size_member:
  "c \<in> set cs \<Longrightarrow> components_size c < Suc (sum_list (map components_size cs))"
  by (induction cs) auto

lemma regexArrayType_shorter:
  "regexArrayType s = Some (g1, g2) \<Longrightarrow> length g1 < length s"
  by (auto simp: regexArrayType_def Let_def split: if_splits)

text \<open>
  The last branch of \<open>ParamType.from\<close>, for an object.  \<open>parseInt\<close> of the digits of an
  array suffix is exact here, as it is in the source below \<open>2^53\<close>.
\<close>

function ParamType_from_obj :: "JsonFragmentType \<Rightarrow> bool \<Rightarrow> error + ParamType" where
  "ParamType_from_obj obj allowIndexed =
     (let name = jt_name obj in
      if truthy name \<and> regexIdentifier (the name) = None
      then Inl (InvalidArgument ''invalid name'' ''obj.name'' name)
      else if jt_indexed obj \<noteq> None \<and> \<not> allowIndexed
      then Inl (InvalidArgument ''parameter cannot be indexed'' ''obj.indexed'' None)
      else
        let indexed = jt_indexed obj;
            name' = (if truthy name then the name else []) in
        case jt_type obj of
          None \<Rightarrow> Inl TypeError
        | Some type \<Rightarrow>
            (case regexArrayType type of
               Some (g1, g2) \<Rightarrow>
                 (let arrayLength = (if g2 \<noteq> [] then int (parseInt g2) else - 1) in
                  bind (ParamType_from_obj
                          (JsonFragmentType None None (Some g1) None (jt_components obj)) False)
                    (\<lambda>arrayChildren.
                       new_ParamType name' type ''array'' indexed None (Some arrayLength)
                         (Some arrayChildren)))
             | None \<Rightarrow>
                 if type = ''tuple'' \<or> take 5 type = ''tuple('' \<or> take 1 type = ''(''
                 then
                   bind (case jt_components obj of
                           None \<Rightarrow> Inr None
                         | Some cs \<Rightarrow>
                             bind (mapM (\<lambda>c. ParamType_from_obj c False) cs) (\<lambda>ps. Inr (Some ps)))
                     (\<lambda>comps. new_ParamType name' type ''tuple'' indexed comps None None)
                 else
                   bind (verifyBasicType type) (\<lambda>type.
                     new_ParamType name' type type indexed None None None)))"
  by pat_completeness auto
termination
proof (relation "measures [\<lambda>(obj, allowIndexed). components_size obj,
                            \<lambda>(obj, allowIndexed). length (the (jt_type obj))]", goal_cases)
  case 1
  show ?case by simp
next
  case (2 obj allowIndexed)
  then show ?case
    by (cases obj) (auto simp: components_size_member)
next
  case (3 obj allowIndexed)
  then show ?case
    by (cases obj) (auto dest: regexArrayType_shorter)
qed

declare ParamType_from_obj.simps [simp del]

subsection \<open>walk and walkAsync\<close>

text \<open>
  A value given to the walkers is a \<open>jsval\<close>.  \<open>#walkAsync\<close> asks \<open>typeof value\<close>, and of an
  object that is no array \<open>param.name in value\<close> and \<open>value[param.name]\<close>.  Both of these
  look for the property in the object itself and then along its prototype chain, so
  that a plain object also has the properties of \<open>Object.prototype\<close>: its built-in
  functions, and the accessor \<open>__proto__\<close>, which reads the prototype of the object it is
  asked of (ECMAScript 2023, 20.1.3).
\<close>

definition typeof :: "jsval \<Rightarrow> string" where
  "typeof v =
     (case v of
        VUndefined \<Rightarrow> ''undefined''
      | VNull \<Rightarrow> ''object''
      | VBool b \<Rightarrow> ''boolean''
      | VNum n \<Rightarrow> ''number''
      | VBigInt n \<Rightarrow> ''bigint''
      | VStr s \<Rightarrow> ''string''
      | VArr xs \<Rightarrow> ''object''
      | VObj kvs \<Rightarrow> ''object''
      | VFunction k \<Rightarrow> ''function''
      | VObjectPrototype \<Rightarrow> ''object'')"

definition getPrototypeOf :: "jsval \<Rightarrow> jsval" where
  \<comment> \<open>\<open>Object.getPrototypeOf\<close> for the objects that are no arrays: the prototype of
      \<open>Object.prototype\<close> is \<open>null\<close>\<close>
  "getPrototypeOf v = (case v of VObj kvs \<Rightarrow> VObjectPrototype | _ \<Rightarrow> VNull)"

definition Object_prototype_functions :: "string list" where
  "Object_prototype_functions =
     [''constructor'', ''hasOwnProperty'', ''isPrototypeOf'', ''propertyIsEnumerable'',
      ''toLocaleString'', ''toString'', ''valueOf'',
      ''__defineGetter__'', ''__defineSetter__'', ''__lookupGetter__'', ''__lookupSetter__'']"


definition Object_prototype_get :: "string \<Rightarrow> jsval \<Rightarrow> jsval option" where
  \<comment> \<open>the property \<open>k\<close> of \<open>Object.prototype\<close> read for the object \<open>receiver\<close>; \<open>None\<close> if
      there is none\<close>
  "Object_prototype_get k receiver =
     (if k = ''__proto__'' then Some (getPrototypeOf receiver)
      else if k \<in> set Object_prototype_functions then Some (VFunction k)
      else None)"

definition property :: "jsval \<Rightarrow> string \<Rightarrow> jsval option" where
  \<comment> \<open>the property \<open>k\<close> of an object that is no array, its own or else the inherited
      one; \<open>None\<close> if there is none\<close>
  "property v k =
     (case v of
        VObj kvs \<Rightarrow> (case map_of kvs k of Some x \<Rightarrow> Some x | None \<Rightarrow> Object_prototype_get k v)
      | VObjectPrototype \<Rightarrow> Object_prototype_get k v
      | _ \<Rightarrow> None)"

definition has_property :: "string \<Rightarrow> jsval \<Rightarrow> bool" where
  \<comment> \<open>\<open>k in v\<close>, for an object \<open>v\<close> that is no array\<close>
  "has_property k v = (property v k \<noteq> None)"

definition get_property :: "jsval \<Rightarrow> string \<Rightarrow> jsval" where
  \<comment> \<open>\<open>v[k]\<close>, for an object \<open>v\<close> that is no array\<close>
  "get_property v k = (case property v k of Some x \<Rightarrow> x | None \<Rightarrow> VUndefined)"



text \<open>
  The function given to \<open>walkAsync\<close> returns a value that is no thenable, throws, or
  returns a promise that is fulfilled or rejected later.
\<close>

datatype leaf = Returns jsval | Throws error | Resolves jsval | Rejects error

text \<open>
  \<open>#walkAsync\<close> descends once and stores what it has through \<open>setValue\<close>; a promise
  pushed on \<open>promises\<close> stores its value when it is fulfilled.  \<open>slot\<close> is the place a
  call of \<open>setValue\<close> writes to: a value stored during the descent, a value or
  rejection that comes later, or an array of such places.
\<close>

datatype slot = Now jsval | Later "error + jsval" | Node "slot list"

function walkAsync_descend :: "ParamType \<Rightarrow> jsval \<Rightarrow> (string \<Rightarrow> jsval \<Rightarrow> leaf) \<Rightarrow> error + slot" where
  "walkAsync_descend this v process =
     (if isArray this then
        (case v of
           VArr vs \<Rightarrow>
             if pt_arrayLength this \<noteq> Some (- 1) \<and> Some (int (length vs)) \<noteq> pt_arrayLength this
             then Inl ArrayWrongLength
             else (case pt_arrayChildren this of
                     None \<Rightarrow> if vs = [] then Inr (Node []) else Inl TypeError
                   | Some childType \<Rightarrow>
                       bind (mapM (\<lambda>x. walkAsync_descend childType x process) vs)
                         (\<lambda>rs. Inr (Node rs)))
         | _ \<Rightarrow> Inl InvalidArrayValue)
      else if isTuple this then
        (case pt_components this of
           None \<Rightarrow> Inl TypeError
         | Some components \<Rightarrow>
             bind
               (case v of
                  VArr vs \<Rightarrow> Inr vs
                | _ \<Rightarrow>
                    if (v = VUndefined \<or> v = VNull) \<or> typeof v \<noteq> ''object''
                    then Inl InvalidTupleValue
                    else mapM (\<lambda>param.
                                 if pt_name param = [] then Inl UnnamedComponents
                                 else if \<not> has_property (pt_name param) v
                                 then Inl (MissingValue (pt_name param))
                                 else Inr (get_property v (pt_name param))) components)
               (\<lambda>result.
                  if length result \<noteq> length components then Inl ArrayWrongLength
                  else bind (mapM (\<lambda>(c, x). walkAsync_descend c x process) (zip components result))
                         (\<lambda>rs. Inr (Node rs))))
      else
        (case process (pt_type this) v of
           Throws e \<Rightarrow> Inl e
         | Returns r \<Rightarrow> if r = VUndefined \<or> r = VNull then Inl TypeError else Inr (Now r)
         | Resolves r \<Rightarrow> Inr (Later (Inr r))
         | Rejects e \<Rightarrow> Inr (Later (Inl e))))"
  by pat_completeness auto
termination
proof (relation "measure (\<lambda>(this, v, process). size this)", goal_cases)
  case 1
  show ?case by simp
next
  case (2 this v process vs childType x)
  then show ?case by (cases this) simp
next
  case (3 this v process components result cx c x)
  then have "c \<in> set components" by (auto dest: set_zip_leftD)
  with 3 show ?case
    by (cases this) (auto simp: less_Suc_eq_le dest!: size_list_estimation' [where f = size and y = "size c", OF _ order_refl])
qed

declare walkAsync_descend.simps [simp del]

text \<open>
  \<open>await Promise.all(promises)\<close> and the read of \<open>result[0]\<close>.  When several promises
  are rejected the source reports the one rejected first in time; \<open>settle\<close> reports the
  first in the order of the descent.
\<close>

fun settle :: "slot \<Rightarrow> error + jsval" where
  "settle (Now v) = Inr v"
| "settle (Later r) = r"
| "settle (Node xs) = bind (mapM settle xs) (\<lambda>vs. Inr (VArr vs))"

definition walkAsync :: "ParamType \<Rightarrow> jsval \<Rightarrow> (string \<Rightarrow> jsval \<Rightarrow> leaf) \<Rightarrow> error + jsval" where
  "walkAsync this v process = bind (walkAsync_descend this v process) settle"

subsection \<open>Fragments\<close>

datatype gas = GasBigInt int | GasString string
  \<comment> \<open>\<open>gas\<close> is the \<open>bigint\<close> of \<open>getBigInt\<close> on the text path and \<open>obj.gas\<close> as it
      comes, a string by the interface \<open>JsonFragment\<close>, on the object path\<close>

datatype Fragment =
    ConstructorFragment "ParamType list" bool "gas option"
      \<comment> \<open>\<open>inputs\<close>, \<open>payable\<close>, \<open>gas\<close>\<close>
  | ErrorFragment string "ParamType list"
      \<comment> \<open>\<open>name\<close>, \<open>inputs\<close>\<close>
  | EventFragment string "ParamType list" bool
      \<comment> \<open>\<open>name\<close>, \<open>inputs\<close>, \<open>anonymous\<close>\<close>
  | FallbackFragment "ParamType list" bool
      \<comment> \<open>\<open>inputs\<close>, \<open>payable\<close>\<close>
  | FunctionFragment string "string option" "ParamType list" "ParamType list" "gas option"
      \<comment> \<open>\<open>name\<close>, \<open>stateMutability\<close> (\<open>None\<close> when the object had none), \<open>inputs\<close>,
          \<open>outputs\<close>, \<open>gas\<close>\<close>
  | StructFragment string "ParamType list"
      \<comment> \<open>\<open>name\<close>, \<open>inputs\<close>\<close>

datatype JsonFragment = JsonFragment
  (jf_name: "string option")
  (jf_type: "string option")
  (jf_anonymous: "bool option")
  (jf_payable: "bool option")
  (jf_constant: "bool option")
  (jf_stateMutability: "string option")
  (jf_inputs: "JsonFragmentType list option")
  (jf_outputs: "JsonFragmentType list option")
  (jf_gas: "string option")
  \<comment> \<open>the interface \<open>JsonFragment\<close>; \<open>None\<close> is a property that is absent\<close>

definition is_constant :: "string option \<Rightarrow> bool" where
  \<comment> \<open>the field \<open>constant\<close> of a \<open>FunctionFragment\<close>\<close>
  "is_constant stateMutability = (stateMutability = Some ''view'' \<or> stateMutability = Some ''pure'')"

definition is_payable :: "string option \<Rightarrow> bool" where
  \<comment> \<open>the field \<open>payable\<close> of a \<open>FunctionFragment\<close>\<close>
  "is_payable stateMutability = (stateMutability = Some ''payable'')"

definition new_NamedFragment :: "string option \<Rightarrow> error + string" where
  \<comment> \<open>the check of the \<open>NamedFragment\<close> constructor; it gives the name back\<close>
  "new_NamedFragment name =
     (case name of
        None \<Rightarrow> Inl (InvalidArgument ''invalid identifier'' ''name'' None)
      | Some n \<Rightarrow> if regexIdentifier n = None
                  then Inl (InvalidArgument ''invalid identifier'' ''name'' (Some n))
                  else Inr n)"

definition joinParams :: "FormatType \<Rightarrow> ParamType list \<Rightarrow> error + string" where
  "joinParams format params =
     bind (mapM (ParamType_format format) params) (\<lambda>ps.
       Inr (''('' @ join (if format = full then '', '' else '','') ps @ '')''))"

definition map_ParamType_from :: "JsonFragmentType list option \<Rightarrow> error + ParamType list" where
  \<comment> \<open>\<open>xs ? xs.map(ParamType.from) : [ ]\<close>.  \<open>map\<close> calls its function with the element
      and the index, so the index is what \<open>ParamType.from\<close> takes as \<open>allowIndexed\<close>: it
      is false for the first element and true for the others.\<close>
  "map_ParamType_from inputs =
     (case inputs of
        None \<Rightarrow> Inr []
      | Some xs \<Rightarrow> mapM (\<lambda>(i, x). ParamType_from_obj x (i \<noteq> 0)) (zip [0..<length xs] xs))"

definition ts_toString :: "TokenString \<Rightarrow> string" where
  "ts_toString ts =
     ''<TokenString ''
     @ join '' '' (map (\<lambda>t. TokenType_name (tk_type t) @ '':'' @ tk_text t)
                     (drop (nat (ts_offset ts)) (ts_tokens ts)))
     @ ''>''"

definition ErrorFragment_from_tokens :: "TokenString \<Rightarrow> error + Fragment" where
  "ErrorFragment_from_tokens obj =
     bind (consumeName ''error'' obj) (\<lambda>(name, obj).
     bind (consumeParams obj False) (\<lambda>(inputs, obj).
     bind (consumeEoi obj) (\<lambda>_.
     bind (new_NamedFragment (Some name)) (\<lambda>name. Inr (ErrorFragment name inputs)))))"

definition ErrorFragment_from_obj :: "JsonFragment \<Rightarrow> error + Fragment" where
  "ErrorFragment_from_obj obj =
     bind (map_ParamType_from (jf_inputs obj)) (\<lambda>inputs.
     bind (new_NamedFragment (jf_name obj)) (\<lambda>name. Inr (ErrorFragment name inputs)))"

definition EventFragment_from_tokens :: "TokenString \<Rightarrow> error + Fragment" where
  "EventFragment_from_tokens obj =
     bind (consumeName ''event'' obj) (\<lambda>(name, obj).
     bind (consumeParams obj True) (\<lambda>(inputs, obj).
     bind (consumeKeywords obj (Some [''anonymous''])) (\<lambda>(kws, obj).
     bind (consumeEoi obj) (\<lambda>_.
     bind (new_NamedFragment (Some name)) (\<lambda>name.
       Inr (EventFragment name inputs (''anonymous'' \<in> set kws)))))))"

definition EventFragment_from_obj :: "JsonFragment \<Rightarrow> error + Fragment" where
  "EventFragment_from_obj obj =
     bind (case jf_inputs obj of None \<Rightarrow> Inr []
           | Some xs \<Rightarrow> mapM (\<lambda>p. ParamType_from_obj p True) xs) (\<lambda>inputs.
     bind (new_NamedFragment (jf_name obj)) (\<lambda>name.
       Inr (EventFragment name inputs (jf_anonymous obj = Some True))))"

definition ConstructorFragment_from_tokens :: "TokenString \<Rightarrow> error + Fragment" where
  "ConstructorFragment_from_tokens obj =
     bind (consumeKeywords obj (Some [''constructor''])) (\<lambda>(_, obj).
     bind (consumeParams obj False) (\<lambda>(inputs, obj).
     bind (consumeKeywords obj (Some [''payable''])) (\<lambda>(kws, obj).
     bind (consumeGas obj) (\<lambda>(g, obj).
     bind (consumeEoi obj) (\<lambda>_.
       Inr (ConstructorFragment inputs (''payable'' \<in> set kws) (map_option GasBigInt g)))))))"

definition ConstructorFragment_from_obj :: "JsonFragment \<Rightarrow> error + Fragment" where
  "ConstructorFragment_from_obj obj =
     bind (map_ParamType_from (jf_inputs obj)) (\<lambda>inputs.
       Inr (ConstructorFragment inputs (jf_payable obj = Some True)
              (map_option GasString (jf_gas obj))))"

definition bytes_only :: "ParamType list \<Rightarrow> bool" where
  \<comment> \<open>\<open>xs.length === 1 && xs[0].type === "bytes"\<close>\<close>
  "bytes_only xs = (case xs of [x] \<Rightarrow> pt_type x = ''bytes'' | _ \<Rightarrow> False)"

definition minimal_list :: "ParamType list \<Rightarrow> error + string option" where
  \<comment> \<open>\<open>xs.map((i) => i.format("minimal")).join(", ")\<close>, the value named in an error\<close>
  "minimal_list xs = bind (mapM (ParamType_format minimal) xs) (\<lambda>fs. Inr (Some (join '', '' fs)))"

definition FallbackFragment_from_tokens :: "TokenString \<Rightarrow> error + Fragment" where
  "FallbackFragment_from_tokens obj =
     (let errorObj = ts_toString obj in
      bind (peekKeyword obj [''fallback'', ''receive'']) (\<lambda>topIsValid.
        if \<not> truthy topIsValid
        then Inl (InvalidArgument ''type must be fallback or receive'' ''obj'' (Some errorObj))
        else
          bind (popKeyword obj [''fallback'', ''receive'']) (\<lambda>(type, obj).
            if type = ''receive'' then
              bind (consumeParams obj False) (\<lambda>(inputs, obj).
                if inputs \<noteq> []
                then Inl (InvalidArgument ''receive cannot have arguments'' ''obj.inputs'' None)
                else
                  bind (consumeKeywords obj (Some [''payable''])) (\<lambda>(_, obj).
                  bind (consumeEoi obj) (\<lambda>_. Inr (FallbackFragment [] True))))
            else
              bind (consumeParams obj False) (\<lambda>(inputs, obj).
              bind (if inputs \<noteq> [] then
                      (if bytes_only inputs then Inr inputs
                       else bind (minimal_list inputs) (\<lambda>v.
                              Inl (InvalidArgument ''invalid fallback inputs'' ''obj.inputs'' v)))
                    else bind (ParamType_from_string ''bytes'' False) (\<lambda>p. Inr [p])) (\<lambda>inputs.
              bind (consumeMutability obj) (\<lambda>(mutability, obj).
                if \<not> (mutability = ''nonpayable'' \<or> mutability = ''payable'')
                then Inl (InvalidArgument ''fallback cannot be constants'' ''obj.stateMutability''
                            (Some mutability))
                else
                  bind (consumeKeywords obj (Some [''returns''])) (\<lambda>(kws, obj).
                  bind (if ''returns'' \<in> set kws then
                          bind (consumeParams obj False) (\<lambda>(outputs, obj).
                            if bytes_only outputs then Inr obj
                            else bind (minimal_list outputs) (\<lambda>v.
                                   Inl (InvalidArgument ''invalid fallback outputs''
                                          ''obj.outputs'' v)))
                        else Inr obj) (\<lambda>obj.
                  bind (consumeEoi obj) (\<lambda>_.
                    Inr (FallbackFragment inputs (mutability = ''payable'')))))))))))"

definition FallbackFragment_from_obj :: "JsonFragment \<Rightarrow> error + Fragment" where
  "FallbackFragment_from_obj obj =
     (if jf_type obj = Some ''receive'' then Inr (FallbackFragment [] True)
      else if jf_type obj = Some ''fallback'' then
        bind (ParamType_from_string ''bytes'' False) (\<lambda>p.
          Inr (FallbackFragment [p] (jf_stateMutability obj = Some ''payable'')))
      else Inl (InvalidArgument ''invalid fallback description'' ''obj'' None))"

definition FunctionFragment_from_tokens :: "TokenString \<Rightarrow> error + Fragment" where
  "FunctionFragment_from_tokens obj =
     bind (consumeName ''function'' obj) (\<lambda>(name, obj).
     bind (consumeParams obj False) (\<lambda>(inputs, obj).
     bind (consumeMutability obj) (\<lambda>(mutability, obj).
     bind (consumeKeywords obj (Some [''returns''])) (\<lambda>(kws, obj).
     bind (if ''returns'' \<in> set kws then consumeParams obj False else Inr ([], obj))
       (\<lambda>(outputs, obj).
     bind (consumeGas obj) (\<lambda>(g, obj).
     bind (consumeEoi obj) (\<lambda>_.
     bind (new_NamedFragment (Some name)) (\<lambda>name.
       Inr (FunctionFragment name (Some mutability) inputs outputs
              (map_option GasBigInt g))))))))))"

definition FunctionFragment_from_obj :: "JsonFragment \<Rightarrow> error + Fragment" where
  "FunctionFragment_from_obj obj =
     bind (map_ParamType_from (jf_inputs obj)) (\<lambda>inputs.
     bind (map_ParamType_from (jf_outputs obj)) (\<lambda>outputs.
     bind (new_NamedFragment (jf_name obj)) (\<lambda>name.
       Inr (FunctionFragment name (jf_stateMutability obj) inputs outputs
              (map_option GasString (jf_gas obj))))))"

definition StructFragment_from_tokens :: "TokenString \<Rightarrow> error + Fragment" where
  "StructFragment_from_tokens obj =
     bind (consumeName ''struct'' obj) (\<lambda>(name, obj).
     bind (consumeParams obj False) (\<lambda>(inputs, obj).
     bind (consumeEoi obj) (\<lambda>_.
     bind (new_NamedFragment (Some name)) (\<lambda>name. Inr (StructFragment name inputs)))))"

definition StructFragment_from_obj :: "JsonFragment \<Rightarrow> error + Fragment" where
  "StructFragment_from_obj obj =
     bind (map_ParamType_from (jf_inputs obj)) (\<lambda>inputs.
     bind (new_NamedFragment (jf_name obj)) (\<lambda>name. Inr (StructFragment name inputs)))"

subsection \<open>Fragment.format\<close>

definition inputs_json :: "ParamType list \<Rightarrow> error + jsval" where
  \<comment> \<open>\<open>xs.map((i) => JSON.parse(i.format("json")))\<close>\<close>
  "inputs_json xs = bind (mapM ParamType_json xs) (\<lambda>js. Inr (VArr js))"

definition gas_json :: "gas option \<Rightarrow> jsval" where
  \<comment> \<open>\<open>(this.gas != null) ? this.gas : undefined\<close>\<close>
  "gas_json g = (case g of None \<Rightarrow> VUndefined | Some (GasBigInt n) \<Rightarrow> VBigInt n
                 | Some (GasString t) \<Rightarrow> VStr t)"

definition gas_toString :: "gas \<Rightarrow> string" where
  "gas_toString g = (case g of GasBigInt n \<Rightarrow> String n | GasString t \<Rightarrow> t)"

text \<open>
  \<open>format\<close> of the six classes; the optional argument is given (a missing one stands
  for \<open>sighash\<close>, except in \<open>ConstructorFragment\<close>, where it is refused).
\<close>

definition Fragment_format :: "FormatType \<Rightarrow> Fragment \<Rightarrow> error + string" where
  "Fragment_format format f =
     (case f of
        ErrorFragment name inputs \<Rightarrow>
          if format = json then
            bind (inputs_json inputs) (\<lambda>js.
              JSON_stringify (VObj [(''type'', VStr ''error''), (''name'', VStr name),
                                    (''inputs'', js)]))
          else
            bind (joinParams format inputs) (\<lambda>ps.
              Inr (join '' '' ((if format \<noteq> sighash then [''error''] else []) @ [name @ ps])))
      | EventFragment name inputs anonymous \<Rightarrow>
          if format = json then
            bind (inputs_json inputs) (\<lambda>js.
              JSON_stringify (VObj [(''type'', VStr ''event''), (''anonymous'', VBool anonymous),
                                    (''name'', VStr name), (''inputs'', js)]))
          else
            bind (joinParams format inputs) (\<lambda>ps.
              Inr (join '' '' ((if format \<noteq> sighash then [''event''] else []) @ [name @ ps]
                               @ (if format \<noteq> sighash \<and> anonymous then [''anonymous''] else []))))
      | ConstructorFragment inputs payable g \<Rightarrow>
          if format = sighash
          then Inl (UnsupportedOperation ''cannot format a constructor for sighash'')
          else if format = json then
            bind (inputs_json inputs) (\<lambda>js.
              JSON_stringify (VObj [(''type'', VStr ''constructor''),
                                    (''stateMutability'',
                                       VStr (if payable then ''payable'' else ''undefined'')),
                                    (''payable'', VBool payable), (''gas'', gas_json g),
                                    (''inputs'', js)]))
          else
            bind (joinParams format inputs) (\<lambda>ps.
              Inr (join '' '' ([''constructor'' @ ps]
                               @ [if payable then ''payable'' else ''nonpayable'']
                               @ (case g of None \<Rightarrow> [] | Some x \<Rightarrow> [''@'' @ gas_toString x]))))
      | FallbackFragment inputs payable \<Rightarrow>
          (let type = (if inputs = [] then ''receive'' else ''fallback'') in
           if format = json then
             JSON_stringify (VObj [(''type'', VStr type),
                                   (''stateMutability'',
                                      VStr (if payable then ''payable'' else ''nonpayable''))])
           else Inr (type @ ''()'' @ (if payable then '' payable'' else [])))
      | FunctionFragment name stateMutability inputs outputs g \<Rightarrow>
          if format = json then
            bind (inputs_json inputs) (\<lambda>js.
            bind (inputs_json outputs) (\<lambda>os.
              JSON_stringify (VObj [(''type'', VStr ''function''), (''name'', VStr name),
                                    (''constant'', VBool (is_constant stateMutability)),
                                    (''stateMutability'',
                                       (case stateMutability of
                                          None \<Rightarrow> VUndefined
                                        | Some m \<Rightarrow> if m \<noteq> ''nonpayable'' then VStr m
                                                    else VUndefined)),
                                    (''payable'', VBool (is_payable stateMutability)),
                                    (''gas'', gas_json g), (''inputs'', js), (''outputs'', os)])))
          else
            bind (joinParams format inputs) (\<lambda>ps.
            bind (if format \<noteq> sighash \<and> outputs \<noteq> []
                  then bind (joinParams format outputs) (\<lambda>os. Inr [''returns'', os])
                  else Inr []) (\<lambda>returns.
              Inr (join '' '' ((if format \<noteq> sighash then [''function''] else []) @ [name @ ps]
                     @ (if format \<noteq> sighash then
                          (case stateMutability of
                             None \<Rightarrow> [[]]
                           | Some m \<Rightarrow> if m \<noteq> ''nonpayable'' then [m] else [])
                          @ returns
                          @ (case g of None \<Rightarrow> [] | Some x \<Rightarrow> [''@'' @ gas_toString x])
                        else [])))))
      | StructFragment name inputs \<Rightarrow> Inl Todo)"

subsection \<open>Fragment.from\<close>

definition Fragment_from_tokens :: "TokenString \<Rightarrow> error + Fragment" where
  "Fragment_from_tokens obj =
     bind (peekKeyword obj KwTypes) (\<lambda>type.
       if type = Some ''constructor'' then ConstructorFragment_from_tokens obj
       else if type = Some ''error'' then ErrorFragment_from_tokens obj
       else if type = Some ''event'' then EventFragment_from_tokens obj
       else if type = Some ''fallback'' \<or> type = Some ''receive''
       then FallbackFragment_from_tokens obj
       else if type = Some ''function'' then FunctionFragment_from_tokens obj
       else if type = Some ''struct'' then StructFragment_from_tokens obj
       else Inl (InvalidArgument ''unsupported frgament object'' ''obj'' None))"

definition Fragment_from_obj :: "JsonFragment \<Rightarrow> error + Fragment" where
  "Fragment_from_obj obj =
     (let type = jf_type obj in
      if type = Some ''constructor'' then ConstructorFragment_from_obj obj
      else if type = Some ''error'' then ErrorFragment_from_obj obj
      else if type = Some ''event'' then EventFragment_from_obj obj
      else if type = Some ''fallback'' \<or> type = Some ''receive''
      then FallbackFragment_from_obj obj
      else if type = Some ''function'' then FunctionFragment_from_obj obj
      else if type = Some ''struct'' then StructFragment_from_obj obj
      else Inl (UnsupportedOperation
                  (''unsupported type: '' @ (case type of None \<Rightarrow> ''undefined'' | Some t \<Rightarrow> t))))"

text \<open>
  \<open>Fragment.from\<close> on a string.  \<open>JSON_parse\<close> stands for the built-in \<open>JSON.parse\<close>
  followed by the reading of the value as a \<open>JsonFragment\<close>; it is a parameter.  The
  source is
  \<^verbatim>\<open>try { Fragment.from(JSON.parse(obj)); } catch (e) { }
return Fragment.from(lex(obj));\<close>
  The statement in the \<open>try\<close> block has no \<open>return\<close>: its value \<open>attempt\<close> is dropped
  and what it throws is caught, and the function goes on to the lexer either way.
\<close>

definition Fragment_from_string ::
  "(string \<Rightarrow> error + JsonFragment) \<Rightarrow> string \<Rightarrow> error + Fragment" where
  "Fragment_from_string JSON_parse obj =
     (let attempt = bind (JSON_parse obj) Fragment_from_obj in
      bind (lex obj) Fragment_from_tokens)"

subsection \<open>Notions of the specification and test data\<close>

definition matches_identifier_grammar :: "string \<Rightarrow> bool" where
  \<comment> \<open>the specification's identifier grammar \<open>[A-Za-z$_][A-Za-z0-9$_]*\<close>, for the whole
      string\<close>
  "matches_identifier_grammar s =
     (case s of [] \<Rightarrow> False | c # cs \<Rightarrow> isIdStart c \<and> list_all isIdChar cs)"

definition tuple_a_b :: ParamType where
  \<comment> \<open>the result of \<open>ParamType.from("tuple(uint256 a, bool b)")\<close>\<close>
  "tuple_a_b =
     ParamType [] ''tuple(uint256,bool)'' ''tuple'' None
       (Some [ParamType ''a'' ''uint256'' ''uint256'' None None None None,
              ParamType ''b'' ''bool'' ''bool'' None None None None])
       None None"


definition keep_later :: "string \<Rightarrow> jsval \<Rightarrow> leaf" where
  \<comment> \<open>a function for \<open>walkAsync\<close> that returns a promise of the value it is given\<close>
  "keep_later type v = Resolves v"

definition word_token :: "string \<Rightarrow> nat \<Rightarrow> nat \<Rightarrow> Token" where
  \<comment> \<open>the token that \<open>lex\<close> makes of the word \<open>m\<close> read at \<open>offset\<close> inside \<open>depth\<close>
      parentheses\<close>
  "word_token m offset depth =
     \<lparr>tk_type = (if m \<in> set Keywords then KEYWORD else if regexType m \<noteq> None then TYPE' else ID),
      tk_offset = offset, tk_text = m, tk_depth = int depth, tk_match = - 1,
      tk_linkBack = - 1, tk_linkNext = - 1, tk_value = - 1\<rparr>"

definition tuple_toString :: ParamType where
  \<comment> \<open>the result of \<open>ParamType.from("tuple(uint8 toString)")\<close>\<close>
  "tuple_toString =
     ParamType [] ''tuple(uint8)'' ''tuple'' None
       (Some [ParamType ''toString'' ''uint8'' ''uint8'' None None None None])
       None None"


fun names_ok :: "ParamType \<Rightarrow> bool" where
  \<comment> \<open>every name in the parameter and below it is empty or matches the identifier
      grammar\<close>
  "names_ok (ParamType name type baseType indexed components arrayLength arrayChildren) =
     ((name = [] \<or> matches_identifier_grammar name)
      \<and> (case components of None \<Rightarrow> True | Some cs \<Rightarrow> \<forall>c \<in> set cs. names_ok c)
      \<and> (case arrayChildren of None \<Rightarrow> True | Some c \<Rightarrow> names_ok c))"

definition word_ok :: "Token \<Rightarrow> bool" where
  \<comment> \<open>the text of an ID token matches the identifier grammar\<close>
  "word_ok t = (tk_type t = ID \<longrightarrow> matches_identifier_grammar (tk_text t))"

definition words_ok :: "Token list \<Rightarrow> bool" where
  "words_ok ts = (\<forall>t \<in> set ts. word_ok t)"

definition comps_ok :: "ParamType list option \<Rightarrow> bool" where
  "comps_ok comps = (case comps of None \<Rightarrow> True | Some cs \<Rightarrow> \<forall>c \<in> set cs. names_ok c)"

definition child_ok :: "ParamType option \<Rightarrow> bool" where
  "child_ok c = (case c of None \<Rightarrow> True | Some p \<Rightarrow> names_ok p)"

section \<open>Properties\<close>

subsection \<open>Auxiliary lemmas\<close>



















text \<open>The lexer on text that ends in whitespace.\<close>

lemma whitespace_other_classes:
  assumes "isWhitespace c"
  shows "\<not> isIdStart c \<and> \<not> isIdChar c \<and> \<not> isDigit c \<and> SimpleTokens c = None"
proof -
  from assms consider "c = CHR 0x09" | "c = CHR 0x0A" | "c = CHR 0x0B" | "c = CHR 0x0C"
    | "c = CHR 0x0D" | "c = CHR '' ''" | "c = CHR 0xA0"
    by (auto simp: isWhitespace_def)
  then show ?thesis
    by cases (simp_all add: isIdChar_def isIdStart_def isDigit_def SimpleTokens_def)
qed

lemma takeWhile_append_stop:
  "ys = [] \<or> \<not> P (hd ys) \<Longrightarrow> takeWhile P (xs @ ys) = takeWhile P xs"
proof (induction xs)
  case Nil
  then show ?case by (cases ys) auto
next
  case (Cons x xs)
  then show ?case by simp
qed

lemma dropWhile_append_stop:
  "ys = [] \<or> \<not> P (hd ys) \<Longrightarrow> dropWhile P (xs @ ys) = dropWhile P xs @ ys"
proof (induction xs)
  case Nil
  then show ?case by (cases ys) auto
next
  case (Cons x xs)
  then show ?case by simp
qed

lemma lex_simple_append:
  "lex_simple ty c cs offset tokens brackets commas = Inr (rest', st)
     \<Longrightarrow> lex_simple ty c (cs @ ws) offset tokens brackets commas = Inr (rest' @ ws, st)"
  by (cases ty) (auto simp: lex_simple_def Let_def split: if_splits)

lemma lex_simple_not_NoReturn:
  "lex_simple ty c cs offset tokens brackets commas \<noteq> Inl NoReturn"
  by (cases ty) (auto simp: lex_simple_def Let_def split: if_splits)

lemma regexIdentifier_append:
  "ws = [] \<or> \<not> isIdChar (hd ws) \<Longrightarrow> regexIdentifier ((c # cs) @ ws) = regexIdentifier (c # cs)"
  by (simp add: regexIdentifier_def takeWhile_append_stop)

lemma regexNumber_append:
  "ws = [] \<or> \<not> isDigit (hd ws) \<Longrightarrow> regexNumber ((c # cs) @ ws) = regexNumber (c # cs)"
  by (simp add: regexNumber_def takeWhile_append_stop)

lemma drop_Cons_append:
  "n \<le> Suc (length cs) \<Longrightarrow> drop n (c # cs @ ws) = drop n (c # cs) @ ws"
  by (cases n) auto

lemma regexIdentifier_length:
  "regexIdentifier s = Some m \<Longrightarrow> length m \<le> length s \<and> m \<noteq> []"
  by (cases s) (auto simp: regexIdentifier_def length_takeWhile_le split: if_splits)

lemma regexNumber_length:
  "regexNumber s = Some m \<Longrightarrow> length m \<le> length s \<and> m \<noteq> []"
  by (cases s) (auto simp: regexNumber_def length_takeWhile_le le_SucI split: if_splits)

lemma lex_step_append:
  assumes step: "lex_step rest offset tokens brackets commas = Inr (rest', st)"
    and ws: "ws \<noteq> []" "isWhitespace (hd ws)"
  shows "lex_step (rest @ ws) offset tokens brackets commas = Inr (rest' @ ws, st)"
proof -
  from step obtain c cs where cur: "dropWhile isWhitespace rest = c # cs"
    by (cases "dropWhile isWhitespace rest") (auto simp: lex_step_def Let_def)
  then have "c \<in> set rest" "\<not> isWhitespace c"
    using set_dropWhileD [of c isWhitespace rest] hd_dropWhile [of isWhitespace rest] by auto
  then have tw: "takeWhile isWhitespace (rest @ ws) = takeWhile isWhitespace rest"
    and dw: "dropWhile isWhitespace (rest @ ws) = (c # cs) @ ws"
    using cur by (simp_all add: takeWhile_append1 dropWhile_append1)
  from ws whitespace_other_classes [of "hd ws"]
  have nid: "ws = [] \<or> \<not> isIdChar (hd ws)" and nd: "ws = [] \<or> \<not> isDigit (hd ws)"
    by simp_all
  note ri = regexIdentifier_append [OF nid, of c cs] and rn = regexNumber_append [OF nd, of c cs]
  show ?thesis
  proof (cases "SimpleTokens c")
    case (Some ty)
    with step cur have "lex_simple ty c cs
        (offset + length (takeWhile isWhitespace rest) + 1)
        (tokens @ [\<lparr>tk_type = EMPTY, tk_offset = offset + length (takeWhile isWhitespace rest),
                     tk_text = [], tk_depth = int (length brackets), tk_match = - 1,
                     tk_linkBack = - 1, tk_linkNext = - 1, tk_value = - 1\<rparr>])
        brackets commas = Inr (rest', st)"
      by (simp add: lex_step_def Let_def)
    from lex_simple_append [OF this, of ws] Some show ?thesis
      by (simp add: lex_step_def Let_def tw dw)
  next
    case None
    show ?thesis
    proof (cases "regexIdentifier (c # cs)")
      case (Some m)
      with step cur None regexIdentifier_length [OF Some] show ?thesis
        unfolding lex_step_def Let_def tw dw ri by (auto simp: drop_Cons_append)
    next
      case noid: None
      show ?thesis
      proof (cases "regexNumber (c # cs)")
        case (Some m)
        with step cur None noid regexNumber_length [OF Some] show ?thesis
          unfolding lex_step_def Let_def tw dw ri rn by (auto simp: drop_Cons_append)
      next
        case nonum: None
        with step cur None noid show ?thesis
          by (simp add: lex_step_def Let_def)
      qed
    qed
  qed
qed

lemma lex_step_offset:
  assumes "lex_step rest offset tokens brackets commas = Inr (rest', offset', st)"
  shows "offset' + length rest' = offset + length rest"
proof -
  from assms obtain c cs where cur: "dropWhile isWhitespace rest = c # cs"
    by (cases "dropWhile isWhitespace rest") (auto simp: lex_step_def Let_def)
  have len: "length (takeWhile isWhitespace rest) + length (c # cs) = length rest"
    using cur takeWhile_dropWhile_id [of isWhitespace rest]
    by (metis length_append)
  show ?thesis
  proof (cases "SimpleTokens c")
    case (Some ty)
    with assms cur len show ?thesis
      by (cases ty) (auto simp: lex_step_def lex_simple_def Let_def split: if_splits)
  next
    case None
    with assms cur len show ?thesis
      by (auto simp: lex_step_def Let_def split: option.splits
               dest!: regexIdentifier_length regexNumber_length)
  qed
qed

lemma lex_step_all_whitespace:
  "list_all isWhitespace ws \<Longrightarrow>
     lex_step ws offset tokens brackets commas = Inl (UnexpectedToken None (offset + length ws))"
  by (simp add: lex_step_def Let_def list_all_iff takeWhile_eq_all_conv [THEN iffD2]
        dropWhile_eq_Nil_conv [THEN iffD2])

lemma lex_loop_trailing:
  "lex_loop rest offset tokens brackets commas = Inr ts \<Longrightarrow> ws \<noteq> [] \<Longrightarrow> list_all isWhitespace ws
     \<Longrightarrow> lex_loop (rest @ ws) offset tokens brackets commas =
           Inl (UnexpectedToken None (offset + length rest + length ws))"
proof (induction rest offset tokens brackets commas rule: lex_loop.induct)
  case (1 rest offset tokens brackets commas)
  show ?case
  proof (cases "rest = []")
    case True
    with "1.prems" show ?thesis
      by (simp add: lex_loop.simps [of ws] lex_step_all_whitespace)
  next
    case False
    with "1.prems"(1) obtain rest' offset' tokens' brackets' commas' where
      step: "lex_step rest offset tokens brackets commas =
               Inr (rest', offset', tokens', brackets', commas')" and
      loop: "lex_loop rest' offset' tokens' brackets' commas' = Inr ts"
      by (subst (asm) lex_loop.simps) (auto split: sum.splits)
    from "1.prems" have hd: "isWhitespace (hd ws)"
      by (cases ws) auto
    have "lex_loop (rest @ ws) offset tokens brackets commas =
            lex_loop (rest' @ ws) offset' tokens' brackets' commas'"
      using False lex_step_append [OF step "1.prems"(2) hd]
      by (subst lex_loop.simps) simp
    also have "\<dots> = Inl (UnexpectedToken None (offset' + length rest' + length ws))"
      using "1.IH" [OF False step refl refl refl refl loop "1.prems"(2,3)] .
    finally show ?thesis
      using lex_step_offset [OF step] by simp
  qed
qed

lemma last_dropWhile:
  "dropWhile P xs \<noteq> [] \<Longrightarrow> last (dropWhile P xs) = last xs"
  by (induction xs) (auto split: if_splits)

lemma dropWhile_keeps_last:
  "xs \<noteq> [] \<Longrightarrow> \<not> P (last xs) \<Longrightarrow> dropWhile P xs \<noteq> [] \<and> last (dropWhile P xs) = last xs"
  by (induction xs) (auto split: if_splits)

lemma lex_step_keeps_last:
  assumes step: "lex_step rest offset tokens brackets commas = Inr (rest', st)"
    and "isWhitespace (last rest)"
  shows "rest' \<noteq> [] \<and> last rest' = last rest"
proof -
  from step obtain c cs where cur: "dropWhile isWhitespace rest = c # cs"
    by (cases "dropWhile isWhitespace rest") (auto simp: lex_step_def Let_def)
  then have nw: "\<not> isWhitespace c"
    using hd_dropWhile [of isWhitespace rest] by auto
  from cur have "last (c # cs) = last rest"
    using last_dropWhile [of isWhitespace rest] by simp
  with nw assms(2) have cs: "cs \<noteq> []" "last cs = last rest"
    by (auto split: if_splits)
  with assms(2) whitespace_other_classes [of "last cs"]
  have stop: "\<not> isIdChar (last cs)" "\<not> isDigit (last cs)"
    by simp_all
  show ?thesis
  proof (cases "SimpleTokens c")
    case (Some ty)
    with step cur have "rest' = cs"
      by (auto simp: lex_step_def Let_def dest: lex_simple_rest)
    with cs show ?thesis by simp
  next
    case None
    have "drop (length (takeWhile isIdChar cs)) cs = dropWhile isIdChar cs"
         "drop (length (takeWhile isDigit cs)) cs = dropWhile isDigit cs"
      by (simp_all add: dropWhile_eq_drop)
    with step cur None cs dropWhile_keeps_last [of cs isIdChar, OF cs(1) stop(1)]
      dropWhile_keeps_last [of cs isDigit, OF cs(1) stop(2)]
    show ?thesis
      by (auto simp: lex_step_def Let_def regexIdentifier_def regexNumber_def
               split: option.splits if_splits)
  qed
qed

lemma lex_step_not_NoReturn:
  "lex_step rest offset tokens brackets commas \<noteq> Inl NoReturn"
  using lex_simple_not_NoReturn
  by (auto simp: lex_step_def Let_def split: list.splits option.splits)

lemma lex_loop_ends_in_whitespace:
  "rest \<noteq> [] \<Longrightarrow> isWhitespace (last rest)
     \<Longrightarrow> \<exists>e. lex_loop rest offset tokens brackets commas = Inl e \<and> e \<noteq> NoReturn"
proof (induction rest offset tokens brackets commas rule: lex_loop.induct)
  case (1 rest offset tokens brackets commas)
  show ?case
  proof (cases "lex_step rest offset tokens brackets commas")
    case (Inl e)
    with "1.prems"(1) lex_step_not_NoReturn [of rest offset tokens brackets commas]
    show ?thesis
      by (subst lex_loop.simps) auto
  next
    case (Inr st)
    then obtain rest' offset' tokens' brackets' commas' where
      step: "lex_step rest offset tokens brackets commas =
               Inr (rest', offset', tokens', brackets', commas')"
      by (cases st) auto
    from lex_step_keeps_last [OF step "1.prems"(2)] "1.prems"(2)
    have "rest' \<noteq> []" "isWhitespace (last rest')" by simp_all
    from "1.IH" [OF "1.prems"(1) step refl refl refl refl this]
    show ?thesis
      using "1.prems"(1) step by (subst lex_loop.simps) simp
  qed
qed

lemma is_error_bind:
  "is_error m \<Longrightarrow> is_error (bind m f)"
  by (cases m) (auto simp: is_error_def)


text \<open>The lexer and the parser on words separated by one space.\<close>

lemma idStart_chars:
  "list_all (\<lambda>c. \<not> isWhitespace c \<and> SimpleTokens c = None)
     ''abcdefghijklmnopqrstuvwxyzABCDEFGHIJKLMNOPQRSTUVWXYZ$_''"
  by code_simp

lemma idStart_other_classes:
  "isIdStart c \<Longrightarrow> \<not> isWhitespace c \<and> SimpleTokens c = None"
  using idStart_chars unfolding isIdStart_def list_all_iff by blast

lemma lex_step_word:
  assumes m: "regexIdentifier m = Some m"
    and ws: "list_all isWhitespace ws"
    and rest: "rest = [] \<or> \<not> isIdChar (hd rest)"
  shows "lex_step (ws @ m @ rest) offset tokens brackets commas =
           Inr (rest, offset + length ws + length m,
                tokens @ [word_token m (offset + length ws) (length brackets)], brackets, commas)"
proof -
  from m obtain c cs where mc: "m = c # cs" and c: "isIdStart c"
    by (cases m) (auto simp: regexIdentifier_def split: if_splits)
  from idStart_other_classes [OF c] have nw: "\<not> isWhitespace c" and st: "SimpleTokens c = None"
    by simp_all
  from ws nw have tw: "takeWhile isWhitespace (ws @ m @ rest) = ws"
    and dw: "dropWhile isWhitespace (ws @ m @ rest) = c # cs @ rest"
    by (simp_all add: mc list_all_iff takeWhile_append2 dropWhile_append2)
  from regexIdentifier_append [OF rest, of c cs] m
  have ri: "regexIdentifier (c # cs @ rest) = Some (c # cs)"
    by (simp add: mc)
  have dr: "drop (length m) (c # cs @ rest) = rest"
    by (simp add: mc)
  show ?thesis
    unfolding lex_step_def Let_def tw dw
    apply (simp only: list.case st option.case ri)
    apply (fold mc)
    apply (simp add: dr setLast_def word_token_def)
    done
qed

lemma space_not_idChar: "\<not> isIdChar CHR '' '' \<and> isWhitespace CHR '' ''"
  by code_simp

lemma regexIdentifier_nonempty: "regexIdentifier m = Some m \<Longrightarrow> m \<noteq> []"
  by (cases m) (auto simp: regexIdentifier_def)

lemma lex_loop_word:
  assumes m: "regexIdentifier m = Some m"
    and ws: "list_all isWhitespace ws"
    and rest: "rest = [] \<or> \<not> isIdChar (hd rest)"
  shows "lex_loop (ws @ m @ rest) offset tokens brackets commas =
           lex_loop rest (offset + length ws + length m)
             (tokens @ [word_token m (offset + length ws) (length brackets)]) brackets commas"
  using regexIdentifier_nonempty [OF m]
  by (subst lex_loop.simps) (simp add: lex_step_word [OF assms])

lemma lex_three_words:
  assumes a: "regexIdentifier a = Some a" and b: "regexIdentifier b = Some b"
    and c: "regexIdentifier c = Some c"
  shows "lex (a @ '' '' @ b @ '' '' @ c) =
           Inr (new_TokenString [word_token a 0 0, word_token b (length a + 1) 0,
                                 word_token c (length a + length b + 2) 0])"
proof -
  have "lex_loop (a @ '' '' @ b @ '' '' @ c) 0 [] [] [] =
          lex_loop ('' '' @ b @ '' '' @ c) (length a) [word_token a 0 0] [] []"
    using lex_loop_word [OF a, of "[]" "'' '' @ b @ '' '' @ c" 0 "[]" "[]" "[]"]
    by (simp add: space_not_idChar)
  also have "\<dots> = lex_loop ('' '' @ c) (length a + 1 + length b)
                     [word_token a 0 0, word_token b (length a + 1) 0] [] []"
    using lex_loop_word [OF b, of "'' ''" "'' '' @ c" "length a" "[word_token a 0 0]" "[]" "[]"]
    by (simp add: space_not_idChar)
  also have "\<dots> = lex_loop [] (length a + 1 + length b + 1 + length c)
                     [word_token a 0 0, word_token b (length a + 1) 0,
                      word_token c (length a + 1 + length b + 1) 0] [] []"
    using lex_loop_word [OF c, of "'' ''" "[]" "length a + 1 + length b"
            "[word_token a 0 0, word_token b (length a + 1) 0]" "[]" "[]"]
    by (simp add: space_not_idChar)
  finally show ?thesis
    by (simp add: lex_def lex_loop.simps [of "[]"] add.commute add.left_commute)
qed

lemma lex_two_words:
  assumes a: "regexIdentifier a = Some a" and c: "regexIdentifier c = Some c"
  shows "lex (a @ '' '' @ c) =
           Inr (new_TokenString [word_token a 0 0, word_token c (length a + 1) 0])"
proof -
  have "lex_loop (a @ '' '' @ c) 0 [] [] [] =
          lex_loop ('' '' @ c) (length a) [word_token a 0 0] [] []"
    using lex_loop_word [OF a, of "[]" "'' '' @ c" 0 "[]" "[]" "[]"]
    by (simp add: space_not_idChar)
  also have "\<dots> = lex_loop [] (length a + 1 + length c)
                     [word_token a 0 0, word_token c (length a + 1) 0] [] []"
    using lex_loop_word [OF c, of "'' ''" "[]" "length a" "[word_token a 0 0]" "[]" "[]"]
    by (simp add: space_not_idChar)
  finally show ?thesis
    by (simp add: lex_def lex_loop.simps [of "[]"])
qed

lemma consumeKeywords_loop_stop:
  "peekType tokens KEYWORD = Inr None \<Longrightarrow> consumeKeywords_loop tokens allowed acc = Inr (acc, tokens)"
  by (subst consumeKeywords_loop.simps) simp

lemma consumeKeywords_loop_take:
  "peekType tokens KEYWORD = Inr (Some k) \<Longrightarrow> k \<in> set a \<Longrightarrow> k \<notin> set acc \<Longrightarrow>
     consumeKeywords_loop tokens (Some a) acc =
       consumeKeywords_loop (tokens\<lparr>ts_offset := ts_offset tokens + 1\<rparr>) (Some a) (acc @ [k])"
  by (subst consumeKeywords_loop.simps) simp

lemma ParamType_array_loop_stop:
  "peekType obj BRACKET = Inr None \<Longrightarrow>
     ParamType_array_loop obj type baseType comps arrayLength arrayChildren =
       Inr (obj, type, baseType, comps, arrayLength, arrayChildren)"
  by (subst ParamType_array_loop.simps) (simp add: truthy_def)

lemma verifyBasicType_result:
  "verifyBasicType T = Inr ty \<Longrightarrow> ty \<noteq> ''array'' \<and> ty \<noteq> ''tuple''"
proof -
  assume v: "verifyBasicType T = Inr ty"
  have "regexType ''array'' = None" "regexType ''tuple'' = None" by code_simp+
  moreover from v have "ty = ''uint256'' \<or> ty = ''int256'' \<or> (ty = T \<and> regexType T \<noteq> None)"
    by (auto simp: verifyBasicType_def Let_def split: option.splits if_splits)
  ultimately show ?thesis by auto
qed

lemma modifier_is_keyword:
  "list_all (\<lambda>kw. regexIdentifier kw = Some kw \<and> kw \<in> set Keywords \<and> kw \<noteq> ''tuple'')
     KwModifiers"
  by code_simp

lemma from_type_name_tokens:
  assumes T: "T \<notin> set Keywords" "regexType T \<noteq> None" "verifyBasicType T = Inr ty"
    and x: "regexIdentifier x = Some x" "x \<notin> set Keywords" "regexType x = None"
  shows "ParamType_from_tokens (new_TokenString [word_token T 0 0, word_token x n 0]) allowIndexed
           = Inr (ParamType x ty ty None None None None)"
proof -
  let ?ts = "[word_token T 0 0, word_token x n 0]"
  have tyT: "tk_type (word_token T 0 0) = TYPE'" "tk_text (word_token T 0 0) = T"
    and tyx: "tk_type (word_token x n 0) = ID" "tk_text (word_token x n 0) = x"
    using T x by (simp_all add: word_token_def)
  from regexIdentifier_nonempty [OF x(1)] have xn: "x \<noteq> []" .
  note vr = verifyBasicType_result [OF T(3)]
  have p0: "peekType \<lparr>ts_offset = 0, ts_tokens = ?ts\<rparr> KEYWORD = Inr None"
    and p0': "peekType \<lparr>ts_offset = 0, ts_tokens = ?ts\<rparr> OPEN_PAREN = Inr None"
    and p1: "peekType \<lparr>ts_offset = 1, ts_tokens = ?ts\<rparr> BRACKET = Inr None"
    and p1': "peekType \<lparr>ts_offset = 1, ts_tokens = ?ts\<rparr> KEYWORD = Inr None"
    and p1'': "peekType \<lparr>ts_offset = 1, ts_tokens = ?ts\<rparr> ID = Inr (Some x)"
    by (simp_all add: peekType_def peek_def ts_length_def tyT tyx)
  show ?thesis
    by (subst ParamType_from_tokens.simps)
       (simp add: new_TokenString_def consumeKeywords_def consumeKeywords_loop_stop p0 p0' p1 p1'
          p1'' truthy_def popType_def pop_def peek_def tyT tyx T(3) ParamType_array_loop_stop
          ts_length_def xn new_ParamType_def vr)
qed

lemma from_type_modifier_name_tokens:
  assumes T: "T \<notin> set Keywords" "regexType T \<noteq> None" "verifyBasicType T = Inr ty"
    and x: "regexIdentifier x = Some x" "x \<notin> set Keywords" "regexType x = None"
    and kw: "kw \<in> set KwModifiers" "kw \<noteq> ''indexed''"
  shows "ParamType_from_tokens
           (new_TokenString [word_token T 0 0, word_token kw m 0, word_token x n 0]) allowIndexed
           = Inr (ParamType x ty ty None None None None)"
proof -
  let ?ts = "[word_token T 0 0, word_token kw m 0, word_token x n 0]"
  from kw modifier_is_keyword
  have k: "kw \<in> set Keywords" "kw \<noteq> ''tuple''"
    unfolding list_all_iff by blast+
  have tyT: "tk_type (word_token T 0 0) = TYPE'" "tk_text (word_token T 0 0) = T"
    and tyk: "tk_type (word_token kw m 0) = KEYWORD" "tk_text (word_token kw m 0) = kw"
    and tyx: "tk_type (word_token x n 0) = ID" "tk_text (word_token x n 0) = x"
    using T x k(1) by (simp_all add: word_token_def)
  from regexIdentifier_nonempty [OF x(1)] have xn: "x \<noteq> []" .
  note vr = verifyBasicType_result [OF T(3)]
  have p0: "peekType \<lparr>ts_offset = 0, ts_tokens = ?ts\<rparr> KEYWORD = Inr None"
    and p0': "peekType \<lparr>ts_offset = 0, ts_tokens = ?ts\<rparr> OPEN_PAREN = Inr None"
    and p1: "peekType \<lparr>ts_offset = 1, ts_tokens = ?ts\<rparr> BRACKET = Inr None"
    and p1': "peekType \<lparr>ts_offset = 1, ts_tokens = ?ts\<rparr> KEYWORD = Inr (Some kw)"
    and p2: "peekType \<lparr>ts_offset = 2, ts_tokens = ?ts\<rparr> KEYWORD = Inr None"
    and p2': "peekType \<lparr>ts_offset = 2, ts_tokens = ?ts\<rparr> ID = Inr (Some x)"
    by (simp_all add: peekType_def peek_def ts_length_def tyT tyk tyx)
  have ck: "consumeKeywords_loop \<lparr>ts_offset = 1, ts_tokens = ?ts\<rparr> (Some KwModifiers) [] =
              Inr ([kw], \<lparr>ts_offset = 2, ts_tokens = ?ts\<rparr>)"
    using consumeKeywords_loop_take [OF p1' kw(1), of "[]"]
    by (simp add: consumeKeywords_loop_stop p2)
  show ?thesis
    by (subst ParamType_from_tokens.simps)
       (simp add: new_TokenString_def consumeKeywords_def consumeKeywords_loop_stop p0 p0' p1 ck
          p2' truthy_def popType_def pop_def peek_def tyT tyk tyx T(3) ParamType_array_loop_stop
          ts_length_def xn new_ParamType_def vr k kw(2) [symmetric])
qed

lemma from_type_indexed_name_tokens:
  assumes T: "T \<notin> set Keywords" "regexType T \<noteq> None" "verifyBasicType T = Inr ty"
    and x: "regexIdentifier x = Some x" "x \<notin> set Keywords" "regexType x = None"
  shows "ParamType_from_tokens
           (new_TokenString [word_token T 0 0, word_token ''indexed'' m 0, word_token x n 0])
           allowIndexed
           = (if allowIndexed then Inr (ParamType x ty ty (Some True) None None None)
              else Inl IndexedNotAllowed)"
proof -
  let ?ts = "[word_token T 0 0, word_token ''indexed'' m 0, word_token x n 0]"
  have k: "''indexed'' \<in> set Keywords" "''indexed'' \<in> set KwModifiers"
    by code_simp+
  have tyT: "tk_type (word_token T 0 0) = TYPE'" "tk_text (word_token T 0 0) = T"
    and tyk: "tk_type (word_token ''indexed'' m 0) = KEYWORD"
      "tk_text (word_token ''indexed'' m 0) = ''indexed''"
    and tyx: "tk_type (word_token x n 0) = ID" "tk_text (word_token x n 0) = x"
    using T x k(1) by (simp_all add: word_token_def)
  from regexIdentifier_nonempty [OF x(1)] have xn: "x \<noteq> []" .
  note vr = verifyBasicType_result [OF T(3)]
  have p0: "peekType \<lparr>ts_offset = 0, ts_tokens = ?ts\<rparr> KEYWORD = Inr None"
    and p0': "peekType \<lparr>ts_offset = 0, ts_tokens = ?ts\<rparr> OPEN_PAREN = Inr None"
    and p1: "peekType \<lparr>ts_offset = 1, ts_tokens = ?ts\<rparr> BRACKET = Inr None"
    and p1': "peekType \<lparr>ts_offset = 1, ts_tokens = ?ts\<rparr> KEYWORD = Inr (Some ''indexed'')"
    and p2: "peekType \<lparr>ts_offset = 2, ts_tokens = ?ts\<rparr> KEYWORD = Inr None"
    and p2': "peekType \<lparr>ts_offset = 2, ts_tokens = ?ts\<rparr> ID = Inr (Some x)"
    by (simp_all add: peekType_def peek_def ts_length_def tyT tyk tyx)
  have ck: "consumeKeywords_loop \<lparr>ts_offset = 1, ts_tokens = ?ts\<rparr> (Some KwModifiers) [] =
              Inr ([''indexed''], \<lparr>ts_offset = 2, ts_tokens = ?ts\<rparr>)"
    using consumeKeywords_loop_take [OF p1' k(2), of "[]"]
    by (simp add: consumeKeywords_loop_stop p2)
  show ?thesis
    by (subst ParamType_from_tokens.simps)
       (simp add: new_TokenString_def consumeKeywords_def consumeKeywords_loop_stop p0 p0' p1 ck
          p2' truthy_def popType_def pop_def peek_def tyT tyk tyx T(3) ParamType_array_loop_stop
          ts_length_def xn new_ParamType_def vr)
qed

lemma Fragment_from_string_lex:
  "Fragment_from_string JSON_parse s = bind (lex s) Fragment_from_tokens"
  by (simp add: Fragment_from_string_def)

lemma lex_open_brace: "lex (CHR ''{'' # s) = Inl (UnexpectedToken (Some CHR ''{'') 0)"
  by (simp add: lex_def lex_loop.simps lex_step_def Let_def isWhitespace_def SimpleTokens_def
        regexIdentifier_def regexNumber_def isIdStart_def isDigit_def)

subsection \<open>The round trip through JSON\<close>

text \<open>
  Claim C1: for every constructed fragment \<open>f\<close>, of any of the six variants,
  \<open>Fragment.from(f.format("json"))\<close> succeeds and returns a fragment equal to \<open>f\<close>.

  On the source it fails.  For a struct, \<open>format\<close> itself throws (\<open>Error("@TODO")\<close>),
  where the five other classes serialize.  For the other variants \<open>format("json")\<close>
  returns a string, and \<open>Fragment.from\<close> on a string drops the fragment it builds from
  \<open>JSON.parse\<close> and gives the string to the lexer, which throws at the opening brace.
  Below, the fragments are those of \<open>struct S(uint8 a)\<close> and \<open>error E(uint8 a)\<close>; the
  result holds whatever \<open>JSON.parse\<close> returns.
\<close>

theorem Fragment_json_round_trip_fails:
  "bind (lex ''struct S(uint8 a)'') Fragment_from_tokens =
     Inr (StructFragment ''S'' [ParamType ''a'' ''uint8'' ''uint8'' None None None None])
   \<and> Fragment_format json
       (StructFragment ''S'' [ParamType ''a'' ''uint8'' ''uint8'' None None None None]) =
     Inl Todo
   \<and> bind (lex ''error E(uint8 a)'') Fragment_from_tokens =
     Inr (ErrorFragment ''E'' [ParamType ''a'' ''uint8'' ''uint8'' None None None None])
   \<and> Fragment_format json
       (ErrorFragment ''E'' [ParamType ''a'' ''uint8'' ''uint8'' None None None None]) =
     Inr (''{'' @ json_quote ''type'' @ '':'' @ json_quote ''error'' @ '','' @ json_quote ''name''
          @ '':'' @ json_quote ''E'' @ '','' @ json_quote ''inputs'' @ '':[{'' @ json_quote ''type''
          @ '':'' @ json_quote ''uint8'' @ '','' @ json_quote ''name'' @ '':'' @ json_quote ''a''
          @ ''}]}'')
   \<and> bind (Fragment_format json
             (ErrorFragment ''E'' [ParamType ''a'' ''uint8'' ''uint8'' None None None None]))
        (Fragment_from_string JSON_parse) =
     Inl (UnexpectedToken (Some CHR ''{'') 0)"
  unfolding Fragment_from_string_lex
  by code_simp

text \<open>
  Claim C2: \<open>Fragment.from\<close> on a string first tries the string as an interchange
  object and falls back to the human-readable text only if that fails; for a string
  that is the JSON of a supported kind it returns the fragment of the structured parse.

  On the source the structured parse never decides the result: \<open>Fragment.from\<close> on a
  string is the lexer followed by the token parser, whatever \<open>JSON.parse\<close> gives.  For
  the text \<open>{"type":"function","name":"f","stateMutability":"view"}\<close> the object gives
  a fragment and \<open>Fragment.from\<close> throws.
\<close>

theorem Fragment_from_string_ignores_structured_parse:
  "Fragment_from_string JSON_parse s = bind (lex s) Fragment_from_tokens
   \<and> Fragment_from_obj
        (JsonFragment (Some ''f'') (Some ''function'') None None None (Some ''view'') None None None)
      = Inr (FunctionFragment ''f'' (Some ''view'') [] [] None)
   \<and> Fragment_from_string
        (\<lambda>t. Inr (JsonFragment (Some ''f'') (Some ''function'') None None None (Some ''view'')
                    None None None))
        (''{'' @ json_quote ''type'' @ '':'' @ json_quote ''function'' @ '','' @ json_quote ''name''
         @ '':'' @ json_quote ''f'' @ '','' @ json_quote ''stateMutability'' @ '':''
         @ json_quote ''view'' @ ''}'')
      = Inl (UnexpectedToken (Some CHR ''{'') 0)"
proof -
  have "Fragment_from_obj
          (JsonFragment (Some ''f'') (Some ''function'') None None None (Some ''view'') None None
             None)
        = Inr (FunctionFragment ''f'' (Some ''view'') [] [] None)"
    by code_simp
  then show ?thesis
    by (simp add: Fragment_from_string_lex lex_open_brace)
qed

subsection \<open>Names of parameters\<close>

text \<open>
  Claim C7: every \<open>ParamType\<close> that has a name has one that matches the identifier
  grammar as a whole.

  On the object path the source tests the name with \<open>name.match(regexIdentifier)\<close>, and
  \<open>regexIdentifier\<close> has no anchor at the end: a name that only starts like an
  identifier is accepted and stored.
\<close>

theorem ParamType_from_obj_keeps_bad_name:
  "ParamType_from_obj (JsonFragmentType (Some ''a-b'') None (Some ''uint8'') None None) False
     = Inr (ParamType ''a-b'' ''uint8'' ''uint8'' None None None None)
   \<and> \<not> matches_identifier_grammar ''a-b''"
  by code_simp

subsection \<open>Walking a tuple\<close>




text \<open>
  A component whose name is a property of \<open>Object.prototype\<close> is found in every mapping:
  for \<open>tuple(uint8 toString)\<close> and the mapping \<open>{}\<close>, \<open>walkAsync\<close> walks the inherited
  function; an entry of the mapping's own comes first; and a name that is no property at
  all is a missing value.
\<close>

theorem walkAsync_finds_inherited_property:
  "ParamType_from_string ''tuple(uint8 toString)'' False = Inr tuple_toString
   \<and> walkAsync tuple_toString (VObj []) keep_later = Inr (VArr [VFunction ''toString''])
   \<and> walkAsync tuple_toString (VObj [(''toString'', VNum 1)]) keep_later = Inr (VArr [VNum 1])
   \<and> walkAsync tuple_a_b (VObj []) keep_later = Inl (MissingValue ''a'')"
  by code_simp

subsection \<open>Trailing whitespace\<close>

text \<open>
  Claim C9: on a string that holds at least one token and ends in whitespace the
  tokenizer throws an unexpected-token error instead of ignoring the whitespace, so
  \<open>ParamType.from\<close> and \<open>Fragment.from\<close> fail on it, even when the string without the
  trailing whitespace parses.

  For every text \<open>s\<close> and every non-empty run of whitespace \<open>ws\<close>: \<open>lex\<close>,
  \<open>ParamType.from\<close> and \<open>Fragment.from\<close> throw on \<open>s @ ws\<close>; and when \<open>lex\<close> returns on
  \<open>s\<close>, the error on \<open>s @ ws\<close> is the unexpected-token error raised at the end of the
  text, where \<open>cur[0]\<close> is undefined.  (When \<open>lex\<close> throws on \<open>s\<close> itself, the error on
  \<open>s @ ws\<close> is one of the lexer's errors for the text before the whitespace.)
\<close>

theorem lex_rejects_trailing_whitespace:
  assumes "ws \<noteq> []" and "list_all isWhitespace ws"
  shows "is_error (lex (s @ ws))
       \<and> is_error (ParamType_from_string (s @ ws) allowIndexed)
       \<and> is_error (Fragment_from_string JSON_parse (s @ ws))
       \<and> (\<not> isl (lex s) \<longrightarrow> lex (s @ ws) = Inl (UnexpectedToken None (length s + length ws)))"
proof -
  from assms have "s @ ws \<noteq> []" "isWhitespace (last (s @ ws))"
    by (auto simp: list_all_iff)
  from lex_loop_ends_in_whitespace [OF this, of 0 "[]" "[]" "[]"]
  have e: "is_error (lex (s @ ws))"
    by (auto simp: lex_def is_error_def)
  have "lex (s @ ws) = Inl (UnexpectedToken None (length s + length ws))" if "\<not> isl (lex s)"
  proof -
    from that obtain ts where "lex_loop s 0 [] [] [] = Inr ts"
      by (cases "lex_loop s 0 [] [] []") (auto simp: lex_def)
    from lex_loop_trailing [OF this assms] show ?thesis
      by (simp add: lex_def)
  qed
  with e show ?thesis
    by (simp add: ParamType_from_string_def Fragment_from_string_def is_error_bind)
qed

theorem lex_rejects_trailing_whitespace_witness:
  "'' '' \<noteq> [] \<and> list_all isWhitespace '' ''
   \<and> ParamType_from_string ''uint256'' False
       = Inr (ParamType [] ''uint256'' ''uint256'' None None None None)
   \<and> is_error (ParamType_from_string ''uint256 '' False)
   \<and> lex ''uint256 '' = Inl (UnexpectedToken None 8)"
proof -
  have a: "'' '' \<noteq> []" by simp
  have b: "list_all isWhitespace '' ''" by (simp add: isWhitespace_def)
  have c: "ParamType_from_string ''uint256'' False
             = Inr (ParamType [] ''uint256'' ''uint256'' None None None None)"
    by code_simp
  have d: "\<not> isl (lex ''uint256'')" by code_simp
  from lex_rejects_trailing_whitespace [OF a b, of "''uint256''" False] d
  have "is_error (ParamType_from_string ''uint256 '' False)"
       "lex ''uint256 '' = Inl (UnexpectedToken None 8)"
    by simp_all
  with a b c show ?thesis by simp
qed

subsection \<open>Modifier keywords in a parameter\<close>

text \<open>
  Claim C10: on the text path \<open>ParamType.from\<close> accepts \<open>calldata\<close>, \<open>memory\<close>, \<open>storage\<close>
  and \<open>payable\<close> after the type and discards them: for every elementary type \<open>T\<close> and
  identifier \<open>x\<close>, \<open>ParamType.from("T memory x")\<close> succeeds and returns what
  \<open>ParamType.from("T x")\<close> returns; only \<open>indexed\<close> affects the result.

  The source fails it for the identifier \<open>interest\<close>: \<open>regexType\<close> has no anchor at the
  end, so the lexer makes a TYPE token of a word that starts with the name of an
  elementary type, here \<open>int\<close>, and \<open>ParamType.from\<close> throws for the leftover token.
\<close>

theorem modifier_with_name_interest_fails:
  "matches_identifier_grammar ''interest'' \<and> ''interest'' \<notin> set Keywords
   \<and> ParamType_from_string ''uint8 memory interest'' False = Inl LeftoverTokens
   \<and> ParamType_from_string ''uint8 interest'' False = Inl LeftoverTokens"
  by code_simp

text \<open>
  What holds of the modifier keywords.  Let the name \<open>x\<close> be a word that the lexer makes
  an ID token of (it matches the identifier grammar, is no keyword and \<open>regexType\<close> does
  not match it), and the type \<open>T\<close> a word that the lexer makes a TYPE token of and that
  \<open>verifyBasicType\<close> accepts, with result \<open>ty\<close>.  Then \<open>ParamType.from("T x")\<close> returns the
  parameter of type \<open>ty\<close> and name \<open>x\<close>, \<open>ParamType.from("T kw x")\<close> returns the same for
  each of \<open>calldata\<close>, \<open>memory\<close>, \<open>storage\<close> and \<open>payable\<close>, and for \<open>indexed\<close> it returns
  the parameter with \<open>indexed\<close> true if \<open>allowIndexed\<close> holds and throws otherwise.
\<close>

theorem modifiers_are_discarded:
  assumes T: "regexIdentifier T = Some T" "T \<notin> set Keywords" "regexType T \<noteq> None"
      "verifyBasicType T = Inr ty"
    and x: "regexIdentifier x = Some x" "x \<notin> set Keywords" "regexType x = None"
    and kw: "kw \<in> set KwModifiers"
  shows "ParamType_from_string (T @ '' '' @ x) allowIndexed
           = Inr (ParamType x ty ty None None None None)
       \<and> (kw \<noteq> ''indexed'' \<longrightarrow>
            ParamType_from_string (T @ '' '' @ kw @ '' '' @ x) allowIndexed
              = Inr (ParamType x ty ty None None None None))
       \<and> (kw = ''indexed'' \<longrightarrow>
            ParamType_from_string (T @ '' '' @ kw @ '' '' @ x) allowIndexed
              = (if allowIndexed then Inr (ParamType x ty ty (Some True) None None None)
                 else Inl IndexedNotAllowed))"
proof -
  from kw modifier_is_keyword have k: "regexIdentifier kw = Some kw"
    unfolding list_all_iff by blast
  have two: "ParamType_from_string (T @ '' '' @ x) allowIndexed
               = Inr (ParamType x ty ty None None None None)"
    unfolding ParamType_from_string_def lex_two_words [OF T(1) x(1)]
    by (simp add: from_type_name_tokens [OF T(2-4) x])
  have three: "ParamType_from_string (T @ '' '' @ kw @ '' '' @ x) allowIndexed
                 = Inr (ParamType x ty ty None None None None)" if "kw \<noteq> ''indexed''"
    unfolding ParamType_from_string_def lex_three_words [OF T(1) k x(1)]
    by (simp add: from_type_modifier_name_tokens [OF T(2-4) x kw that])
  have ki: "regexIdentifier ''indexed'' = Some ''indexed''"
    by code_simp
  have ix: "ParamType_from_string (T @ '' '' @ ''indexed'' @ '' '' @ x) allowIndexed
              = (if allowIndexed then Inr (ParamType x ty ty (Some True) None None None)
                 else Inl IndexedNotAllowed)"
    unfolding ParamType_from_string_def lex_three_words [OF T(1) ki x(1)]
    by (simp add: from_type_indexed_name_tokens [OF T(2-4) x])
  from two three ix show ?thesis
    by blast
qed

theorem modifiers_are_discarded_witness:
  "ParamType_from_string ''uint8 amount'' False
     = Inr (ParamType ''amount'' ''uint8'' ''uint8'' None None None None)
   \<and> ParamType_from_string ''uint8 memory amount'' False
       = Inr (ParamType ''amount'' ''uint8'' ''uint8'' None None None None)"
proof -
  have T: "regexIdentifier ''uint8'' = Some ''uint8''" "''uint8'' \<notin> set Keywords"
    "regexType ''uint8'' \<noteq> None" "verifyBasicType ''uint8'' = Inr ''uint8''"
    by code_simp+
  have x: "regexIdentifier ''amount'' = Some ''amount''" "''amount'' \<notin> set Keywords"
    "regexType ''amount'' = None"
    by code_simp+
  have kw: "''memory'' \<in> set KwModifiers"
    by code_simp
  from modifiers_are_discarded [OF T x kw, of False] show ?thesis
    by simp
qed

subsection \<open>Mutability keywords\<close>

text \<open>
  Claim C3: \<open>consumeMutability\<close> fails with a conflicting-modifiers error whenever more
  than one keyword of \<open>constant, payable, nonpayable\<close> or more than one of
  \<open>pure, view, payable, nonpayable\<close> appears; in particular it fails on \<open>view pure\<close>.

  The source does not do so.  \<open>allowSingle\<close> collects nothing, because its loop is
  \<open>for (const key in allowed.keys())\<close>, and therefore never throws; on the tokens of
  \<open>view pure\<close> \<open>consumeMutability\<close> returns \<open>view\<close>.
\<close>

theorem consumeMutability_view_pure_returns_view:
  "map_sum id fst (bind (lex ''view pure'') consumeMutability) = Inr ''view''"
  by code_simp

subsection \<open>Elementary types\<close>

text \<open>
  What \<open>verifyBasicType\<close> does on \<open>uint\<close>, \<open>int\<close>, and on \<open>bytes\<close>, \<open>uint\<close> and \<open>int\<close>
  followed by digits only; and that it refuses a string that \<open>regexType\<close> does not
  match at its start.
\<close>

lemma takeWhile_all: "list_all P xs \<Longrightarrow> takeWhile P xs = xs"
  by (simp add: list_all_iff)

lemma verifyBasicType_canonical:
  "verifyBasicType ''uint'' = Inr ''uint256'' \<and> verifyBasicType ''int'' = Inr ''int256''"
  by code_simp

lemma verifyBasicType_bytesN:
  assumes "ds \<noteq> []" and "list_all isDigit ds"
  shows "verifyBasicType (''bytes'' @ ds) =
           (if 1 \<le> parseInt ds \<and> parseInt ds \<le> 32 then Inr (''bytes'' @ ds)
            else Inl (InvalidArgument ''invalid bytes length'' ''type'' (Some (''bytes'' @ ds))))"
  using assms
  by (auto simp: verifyBasicType_def regexType_def truthy_def Let_def takeWhile_all)

lemma verifyBasicType_uintN:
  assumes "ds \<noteq> []" and "list_all isDigit ds"
  shows "verifyBasicType (''uint'' @ ds) =
           (if 0 < parseInt ds \<and> parseInt ds \<le> 256 \<and> parseInt ds mod 8 = 0
            then Inr (''uint'' @ ds)
            else Inl (InvalidArgument ''invalid numeric width'' ''type'' (Some (''uint'' @ ds))))"
  using assms
  by (auto simp: verifyBasicType_def regexType_def truthy_def Let_def takeWhile_all)

lemma verifyBasicType_intN:
  assumes "ds \<noteq> []" and "list_all isDigit ds"
  shows "verifyBasicType (''int'' @ ds) =
           (if 0 < parseInt ds \<and> parseInt ds \<le> 256 \<and> parseInt ds mod 8 = 0
            then Inr (''int'' @ ds)
            else Inl (InvalidArgument ''invalid numeric width'' ''type'' (Some (''int'' @ ds))))"
  using assms
  by (auto simp: verifyBasicType_def regexType_def truthy_def Let_def takeWhile_all)

lemma verifyBasicType_no_prefix:
  "regexType type = None \<Longrightarrow>
     verifyBasicType type = Inl (InvalidArgument ''invalid type'' ''type'' (Some type))"
  by (simp add: verifyBasicType_def)

text \<open>
  Claim C5: \<open>verifyBasicType\<close> maps \<open>uint\<close> to \<open>uint256\<close> and \<open>int\<close> to \<open>int256\<close>, accepts
  \<open>bytesN\<close> exactly for \<open>1 \<le> N \<le> 32\<close> and \<open>uintN\<close>, \<open>intN\<close> exactly for the multiples of 8
  up to 256, and fails with an invalid-type error on every other string that does not
  match the grammar of elementary types.

  The last part fails on the source: \<open>regexType\<close> has no anchor at the end, so a string
  that only starts with an elementary type is returned as it is.
\<close>

theorem verifyBasicType_accepts_longer_strings:
  "verifyBasicType ''uint8x'' = Inr ''uint8x''
   \<and> verifyBasicType ''addressBook'' = Inr ''addressBook''
   \<and> verifyBasicType ''bytes32_t'' = Inr ''bytes32_t''"
  by code_simp

subsection \<open>Array suffixes\<close>

text \<open>
  Claim C6: \<open>ParamType.from("uint8[3][]")\<close> is a dynamic array (\<open>baseType\<close> \<open>array\<close>,
  \<open>arrayLength\<close> \<open>-1\<close>) whose \<open>arrayChildren\<close> is an array of length 3 whose
  \<open>arrayChildren\<close> is \<open>uint8\<close>: each array suffix wraps the type built so far.
\<close>

theorem ParamType_from_uint8_3_dyn:
  "ParamType_from_string ''uint8[3][]'' False =
     Inr (ParamType [] ''uint8[3][]'' ''array'' None None (Some (- 1))
           (Some (ParamType [] ''uint8[3]'' ''array'' None None (Some 3)
                   (Some (ParamType [] ''uint8'' ''uint8'' None None None None)))))"
  by code_simp

subsection \<open>The keyword indexed\<close>

text \<open>
  Claim C8: \<open>ParamType.from("address indexed a", false)\<close> fails, with the error raised
  for \<open>indexed\<close> where it is not allowed, and \<open>ParamType.from("address indexed a", true)\<close>
  returns a \<open>ParamType\<close> of name \<open>a\<close> with \<open>indexed\<close> true.
\<close>

theorem ParamType_from_indexed_gate:
  "ParamType_from_string ''address indexed a'' False = Inl IndexedNotAllowed
   \<and> ParamType_from_string ''address indexed a'' True =
       Inr (ParamType ''a'' ''address'' ''address'' (Some True) None None None)"
  by code_simp

subsection \<open>Names of parameters read from text\<close>

text \<open>
  The lexer reads a word with \<open>regexIdentifier\<close> and the token it makes holds the matched
  text only, so every ID token matches the identifier grammar as a whole; \<open>ParamType.from\<close>
  takes the name of a parameter from an ID token or leaves it empty.  Hence every parameter
  read from text, and every parameter below it, has a name that is empty or matches the
  grammar: a name that only starts like an identifier can be stored on the object path
  alone.
\<close>

lemma regexIdentifier_matches:
  "regexIdentifier s = Some m \<Longrightarrow> matches_identifier_grammar m"
  by (cases s)
     (auto simp: regexIdentifier_def matches_identifier_grammar_def list_all_iff
           dest: set_takeWhileD split: if_splits)

lemma ok_fields:
  "word_ok t \<Longrightarrow> word_ok (t\<lparr>tk_match := a\<rparr>)"
  "word_ok t \<Longrightarrow> word_ok (t\<lparr>tk_linkBack := a\<rparr>)"
  "word_ok t \<Longrightarrow> word_ok (t\<lparr>tk_linkNext := a\<rparr>)"
  "word_ok t \<Longrightarrow> word_ok (t\<lparr>tk_depth := d\<rparr>)"
  "word_ok t \<Longrightarrow> word_ok (t\<lparr>tk_value := a\<rparr>)"
  by (simp_all add: word_ok_def)

lemma ok_setLast:
  assumes "words_ok ts" and "ts \<noteq> [] \<Longrightarrow> word_ok (f (last ts))"
  shows "words_ok (setLast f ts)"
proof (cases "ts = []")
  case True
  then show ?thesis by (simp add: setLast_def words_ok_def)
next
  case False
  with assms(2) have "word_ok (f (ts ! (length ts - 1)))"
    by (simp add: last_conv_nth)
  with assms(1) show ?thesis
    unfolding setLast_def words_ok_def
    using set_update_subset_insert [of ts "length ts - 1"] by blast
qed

lemma ok_last: "words_ok ts \<Longrightarrow> ts \<noteq> [] \<Longrightarrow> word_ok (last ts)"
  by (simp add: words_ok_def)

lemma ok_nth: "words_ok ts \<Longrightarrow> i < length ts \<Longrightarrow> word_ok (ts ! i)"
  by (simp add: words_ok_def)

lemma ok_update:
  "words_ok ts \<Longrightarrow> word_ok y \<Longrightarrow> words_ok (ts[i := y])"
  unfolding words_ok_def using set_update_subset_insert [of ts i y] by blast

lemma ok_butlast: "words_ok ts \<Longrightarrow> words_ok (butlast ts)"
  by (auto simp: words_ok_def dest: in_set_butlastD)

lemma ok_snoc: "words_ok ts \<Longrightarrow> word_ok t \<Longrightarrow> words_ok (ts @ [t])"
  by (simp add: words_ok_def)

lemma setLast_nonempty [simp]: "setLast f ts = [] \<longleftrightarrow> ts = []"
  by (simp add: setLast_def)

lemma setLast_length [simp]: "length (setLast f ts) = length ts"
  by (simp add: setLast_def)

lemma last_setLast: "ts \<noteq> [] \<Longrightarrow> last (setLast f ts) = f (last ts)"
  by (simp add: setLast_def last_conv_nth)

lemma lex_simple_ok:
  assumes r: "lex_simple ty c cs offset tokens0 brackets commas =
                Inr (rest', offset', tokens', st)"
    and ok: "words_ok tokens0" and ty: "ty \<noteq> ID"
  shows "words_ok tokens'"
proof -
  let ?t1 = "setLast (\<lambda>t. t\<lparr>tk_type := ty, tk_text := [c]\<rparr>) tokens0"
  have t1: "words_ok ?t1"
    using ok ty by (intro ok_setLast) (simp_all add: word_ok_def)
  note rules = ok_setLast ok_update ok_butlast ok_fields ok_last ok_nth
  show ?thesis
  proof (cases ty)
    case OPEN_PAREN
    with r t1 show ?thesis by (simp add: lex_simple_def Let_def)
  next
    case CLOSE_PAREN
    with r t1 show ?thesis
      by (auto simp: lex_simple_def Let_def not_le split: if_splits intro!: rules)
  next
    case COMMA
    with r t1 show ?thesis
      by (auto simp: lex_simple_def Let_def not_le split: if_splits intro!: rules)
  next
    case OPEN_BRACKET
    with r t1 show ?thesis
      by (auto simp: lex_simple_def Let_def word_ok_def split: if_splits intro!: ok_setLast)
  next
    case CLOSE_BRACKET
    with r t1 show ?thesis
      by (auto simp: lex_simple_def Let_def last_setLast word_ok_def split: if_splits
               intro!: ok_setLast ok_butlast)
  qed (use r t1 ty in \<open>simp_all add: lex_simple_def Let_def\<close>)
qed

lemma SimpleTokens_not_ID: "SimpleTokens c = Some ty \<Longrightarrow> ty \<noteq> ID"
  by (auto simp: SimpleTokens_def split: if_splits)

lemma lex_step_ok:
  assumes r: "lex_step rest offset tokens brackets commas = Inr (rest', offset', tokens', st)"
    and ok: "words_ok tokens"
  shows "words_ok tokens'"
proof -
  let ?token = "\<lparr>tk_type = EMPTY, tk_offset = offset + length (takeWhile isWhitespace rest),
                  tk_text = [], tk_depth = int (length brackets), tk_match = - 1,
                  tk_linkBack = - 1, tk_linkNext = - 1, tk_value = - 1\<rparr>"
  have t0: "words_ok (tokens @ [?token])"
    using ok by (intro ok_snoc) (simp_all add: word_ok_def)
  from r obtain c cs where cur: "dropWhile isWhitespace rest = c # cs"
    by (cases "dropWhile isWhitespace rest") (auto simp: lex_step_def Let_def)
  show ?thesis
  proof (cases "SimpleTokens c")
    case (Some ty)
    with r cur have "lex_simple ty c cs (offset + length (takeWhile isWhitespace rest) + 1)
                       (tokens @ [?token]) brackets commas = Inr (rest', offset', tokens', st)"
      by (simp add: lex_step_def Let_def)
    from lex_simple_ok [OF this t0 SimpleTokens_not_ID [OF Some]] show ?thesis .
  next
    case None
    show ?thesis
    proof (cases "regexIdentifier (c # cs)")
      case (Some m)
      with r cur None have "tokens' = setLast (\<lambda>t. t\<lparr>tk_text := m, tk_type :=
          (if m \<in> set Keywords then KEYWORD else if regexType m \<noteq> None then TYPE' else ID)\<rparr>)
          (tokens @ [?token])"
        by (auto simp: lex_step_def Let_def)
      with t0 regexIdentifier_matches [OF Some] show ?thesis
        by (auto intro!: ok_setLast simp: word_ok_def)
    next
      case noid: None
      with r cur None obtain m where "tokens' = setLast (\<lambda>t. t\<lparr>tk_text := m, tk_type := NUMBER\<rparr>)
          (tokens @ [?token])"
        by (auto simp: lex_step_def Let_def split: option.splits)
      with t0 show ?thesis
        by (auto intro!: ok_setLast simp: word_ok_def)
    qed
  qed
qed

lemma lex_loop_ok:
  "lex_loop rest offset tokens brackets commas = Inr ts \<Longrightarrow> words_ok tokens \<Longrightarrow> words_ok ts"
proof (induction rest offset tokens brackets commas rule: lex_loop.induct)
  case (1 rest offset tokens brackets commas)
  show ?case
  proof (cases "rest = []")
    case True
    with "1.prems" show ?thesis by (simp add: lex_loop.simps)
  next
    case False
    with "1.prems"(1) obtain rest' offset' tokens' brackets' commas' where
      step: "lex_step rest offset tokens brackets commas =
               Inr (rest', offset', tokens', brackets', commas')" and
      loop: "lex_loop rest' offset' tokens' brackets' commas' = Inr ts"
      by (subst (asm) lex_loop.simps) (auto split: sum.splits)
    from "1.IH" [OF False step refl refl refl refl loop lex_step_ok [OF step "1.prems"(2)]]
    show ?thesis .
  qed
qed

lemma lex_ok: "lex s = Inr ts \<Longrightarrow> words_ok (ts_tokens ts)"
  by (cases "lex_loop s 0 [] [] []")
     (auto simp: lex_def new_TokenString_def words_ok_def dest!: lex_loop_ok)

lemma set_js_slice: "set (js_slice xs from to) \<subseteq> set xs"
  by (auto simp: js_slice_def Let_def dest: in_set_takeD in_set_dropD)

lemma subTokenString_ok:
  "words_ok tokens \<Longrightarrow> words_ok (ts_tokens (subTokenString tokens from to))"
  using set_js_slice [of tokens "from" to]
  by (auto simp: subTokenString_def new_TokenString_def words_ok_def word_ok_def)

lemma popParams_loop_ok:
  "popParams_loop fuel tokens offset m result = Inr ts \<Longrightarrow> words_ok tokens
     \<Longrightarrow> \<forall>t \<in> set result. words_ok (ts_tokens t)
     \<Longrightarrow> \<forall>t \<in> set ts. words_ok (ts_tokens t)"
proof (induction fuel arbitrary: offset result)
  case 0
  then show ?case by (simp add: popParams_loop.simps)
next
  case (Suc fuel)
  show ?case
  proof (cases "offset < m - 1")
    case False
    with Suc.prems show ?thesis by (simp add: popParams_loop.simps)
  next
    case True
    with Suc.prems(1) obtain t where
      t: "peek \<lparr>ts_offset = offset, ts_tokens = tokens\<rparr> = Inr t" and
      r: "popParams_loop fuel tokens (tk_linkNext t) m
            (result @ [subTokenString tokens (offset + 1) (tk_linkNext t)]) = Inr ts"
      by (auto simp: popParams_loop.simps bind_def Let_def split: sum.splits)
    from Suc.prems(2,3) show ?thesis
      by (intro Suc.IH [OF r]) (auto simp: subTokenString_ok)
  qed
qed

lemma popParams_ok:
  assumes "popParams ts = Inr (subs, ts')" and "words_ok (ts_tokens ts)"
  shows "(\<forall>t \<in> set subs. words_ok (ts_tokens t)) \<and> ts_tokens ts' = ts_tokens ts"
proof -
  from assms(1) obtain top where top: "peek ts = Inr top"
    unfolding popParams_def by (cases "peek ts") (auto simp: bind_def)
  with assms(1) have
    loop: "popParams_loop (length (ts_tokens ts) + 1) (ts_tokens ts) (ts_offset ts)
             (tk_match top) [] = Inr subs" and
    ts': "ts' = ts\<lparr>ts_offset := tk_match top + 1\<rparr>"
    unfolding popParams_def by (auto simp: bind_def split: sum.splits if_splits)
  from popParams_loop_ok [OF loop assms(2)] ts' show ?thesis by simp
qed

lemma bind_InrE:
  assumes "bind m f = Inr y"
  obtains x where "m = Inr x" and "f x = Inr y"
  using assms by (cases m) auto

lemma bind_Inr_iff:
  "bind m f = Inr y \<longleftrightarrow> (\<exists>x. m = Inr x \<and> f x = Inr y)"
  by (cases m) auto

lemma mapM_all:
  "mapM f xs = Inr ys \<Longrightarrow> (\<And>x y. x \<in> set xs \<Longrightarrow> f x = Inr y \<Longrightarrow> Q y) \<Longrightarrow> \<forall>y \<in> set ys. Q y"
proof (induction xs arbitrary: ys)
  case Nil
  then show ?case by simp
next
  case (Cons a xs)
  from Cons.prems(1) obtain y ys' where
    y: "f a = Inr y" and ys': "mapM f xs = Inr ys'" and e: "ys = y # ys'"
    by (auto split: sum.splits)
  have "Q y"
    using Cons.prems(2) [of a y] y by simp
  moreover have "\<forall>y \<in> set ys'. Q y"
  proof (rule Cons.IH [OF ys'])
    fix x z
    assume "x \<in> set xs" and "f x = Inr z"
    then show "Q z"
      using Cons.prems(2) [of x z] by simp
  qed
  ultimately show ?case
    using e by simp
qed

lemma peekType_word:
  "peekType obj ty = Inr (Some x) \<Longrightarrow> words_ok (ts_tokens obj) \<Longrightarrow> ty = ID
     \<Longrightarrow> matches_identifier_grammar x"
  by (auto simp: peekType_def peek_def bind_def words_ok_def word_ok_def split: if_splits)

lemma pop_text:
  "pop obj = Inr (t, obj') \<Longrightarrow> peekType obj ty = Inr (Some x) \<Longrightarrow> tk_text t = x"
  by (auto simp: pop_def peekType_def peek_def bind_def split: if_splits)

lemma new_ParamType_ok:
  "new_ParamType name type baseType indexed comps al ac = Inr p \<Longrightarrow>
     name = [] \<or> matches_identifier_grammar name \<Longrightarrow> comps_ok comps \<Longrightarrow> child_ok ac
     \<Longrightarrow> names_ok p"
  by (auto simp: new_ParamType_def comps_ok_def child_ok_def split: if_splits option.splits)

lemma ParamType_array_loop_ok:
  "ParamType_array_loop obj type baseType comps al ac = Inr (obj', type', baseType', comps', al', ac')
     \<Longrightarrow> comps_ok comps \<Longrightarrow> child_ok ac
     \<Longrightarrow> comps_ok comps' \<and> child_ok ac' \<and> ts_tokens obj' = ts_tokens obj"
proof (induction obj type baseType comps al ac rule: ParamType_array_loop.induct)
  case (1 obj type baseType comps al ac)
  show ?case
  proof (cases "ts_length obj \<noteq> 0 \<and> (\<exists>b. peekType obj BRACKET = Inr b \<and> truthy b)")
    case False
    with "1.prems" show ?thesis
      by (subst (asm) ParamType_array_loop.simps)
         (auto simp: bind_def split: sum.splits if_splits)
  next
    case True
    then obtain b where b: "ts_length obj \<noteq> 0" "peekType obj BRACKET = Inr b" "truthy b"
      by blast
    with "1.prems"(1) obtain bracket obj1 child where
      p: "pop obj = Inr (bracket, obj1)" and
      c: "new_ParamType [] type baseType None comps al ac = Inr child" and
      r: "ParamType_array_loop obj1 (type @ tk_text bracket) ''array'' None
            (Some (tk_value bracket)) (Some child) = Inr (obj', type', baseType', comps', al', ac')"
      by (subst (asm) ParamType_array_loop.simps)
         (auto simp: bind_def split: sum.splits prod.splits)
    from new_ParamType_ok [OF c] "1.prems"(2,3) have "child_ok (Some child)"
      by (simp add: child_ok_def)
    from "1.IH" [OF b(1,2,3) p refl c r _ this] pop_offset [OF p]
    show ?thesis
      by (simp add: comps_ok_def)
  qed
qed

lemma popType_tokens:
  "popType obj ty = Inr (t, obj') \<Longrightarrow> ts_tokens obj' = ts_tokens obj"
  by (auto simp: popType_def bind_def split: sum.splits prod.splits if_splits dest: pop_offset)

lemma consumeKeywords_tokens:
  "consumeKeywords obj allowed = Inr (ks, obj') \<Longrightarrow> ts_tokens obj' = ts_tokens obj"
  unfolding consumeKeywords_def by (rule consumeKeywords_loop_tokens)

lemma ParamType_from_tokens_names:
  "ParamType_from_tokens obj allowIndexed = Inr p \<Longrightarrow> words_ok (ts_tokens obj) \<Longrightarrow> names_ok p"
proof (induction obj allowIndexed arbitrary: p rule: ParamType_from_tokens.induct)
  case (1 obj allowIndexed)
  note u = "1.prems"(1) [unfolded ParamType_from_tokens.simps [of obj allowIndexed]]
  from u obtain kws obj1 tuple obj2 type baseType comps
      obj3 type' baseType' comps' al ac kws2 obj4 indexed i name obj5 where
    k: "consumeKeywords obj (Some [''tuple'']) = Inr (kws, obj1)" and
    tu: "(if ''tuple'' \<in> set kws then Inr True
          else bind (peekType obj1 OPEN_PAREN) (\<lambda>p. Inr (truthy p))) = Inr tuple" and
    b: "(if tuple then
          bind (popParams obj1) (\<lambda>(ts, obj2).
          bind (mapM (\<lambda>t. ParamType_from_tokens t False) ts) (\<lambda>comps.
          bind (mapM (ParamType_format sighash) comps) (\<lambda>fs.
            Inr (obj2, ''tuple('' @ join '','' fs @ '')'', ''tuple'', Some comps))))
        else
          bind (popType obj1 TYPE') (\<lambda>(t, obj2).
          bind (verifyBasicType t) (\<lambda>type.
            Inr (obj2, type, type, None)))) = Inr (obj2, type, baseType, comps)" and
    a: "ParamType_array_loop obj2 type baseType comps None None
          = Inr (obj3, type', baseType', comps', al, ac)" and
    k2: "consumeKeywords obj3 (Some KwModifiers) = Inr (kws2, obj4)" and
    i: "peekType obj4 ID = Inr i" and
    n: "(if truthy i then bind (pop obj4) (\<lambda>(t, obj5). Inr (tk_text t, obj5))
           else Inr ([], obj4)) = Inr (name, obj5)" and
    p0: "(if ts_length obj5 \<noteq> 0 then Inl LeftoverTokens
          else new_ParamType name type' baseType' indexed comps' al ac) = Inr p"
    by (auto simp: bind_Inr_iff split: prod.splits)
  from p0 have p: "new_ParamType name type' baseType' indexed comps' al ac = Inr p"
    by (simp split: if_splits)
  have t1: "ts_tokens obj1 = ts_tokens obj"
    using k by (rule consumeKeywords_tokens)
  have c: "comps_ok comps \<and> ts_tokens obj2 = ts_tokens obj"
  proof (cases tuple)
    case False
    with b t1 show ?thesis
      by (auto simp: comps_ok_def elim!: bind_InrE dest: popType_tokens)
  next
    case True
    with b obtain ts cs where
      pp: "popParams obj1 = Inr (ts, obj2)" and
      m: "mapM (\<lambda>t. ParamType_from_tokens t False) ts = Inr cs" and
      e: "comps = Some cs"
      by (auto elim!: bind_InrE)
    from popParams_ok [OF pp] "1.prems"(2) t1
    have w: "\<forall>t \<in> set ts. words_ok (ts_tokens t)" and t2: "ts_tokens obj2 = ts_tokens obj1"
      by simp_all
    have "\<forall>c \<in> set cs. names_ok c"
    proof (rule mapM_all [OF m])
      fix x y
      assume x: "x \<in> set ts" and y: "ParamType_from_tokens x False = Inr y"
      show "names_ok y"
        using "1.IH" [OF k refl tu True pp refl x y] w x
        by simp
    qed
    with e t1 t2 show ?thesis
      by (simp add: comps_ok_def)
  qed
  from ParamType_array_loop_ok [OF a] c
  have c': "comps_ok comps'" "child_ok ac" and t3: "ts_tokens obj3 = ts_tokens obj"
    by (simp_all add: child_ok_def)
  from consumeKeywords_tokens [OF k2] t3 "1.prems"(2) have w4: "words_ok (ts_tokens obj4)"
    by simp
  have "name = [] \<or> matches_identifier_grammar name"
  proof (cases "truthy i")
    case False
    with n show ?thesis by simp
  next
    case True
    then obtain x where x: "i = Some x"
      by (cases i) (auto simp: truthy_def)
    from True n obtain t where t: "pop obj4 = Inr (t, obj5)" and e: "name = tk_text t"
      by (auto elim!: bind_InrE)
    from pop_text [OF t i [unfolded x]] peekType_word [OF i [unfolded x] w4 refl] e
    show ?thesis by simp
  qed
  from new_ParamType_ok [OF p this c'] show ?case .
qed

theorem ParamType_from_string_names:
  "ParamType_from_string s allowIndexed = Inr p \<Longrightarrow> names_ok p"
  unfolding ParamType_from_string_def
  by (auto elim!: bind_InrE dest: lex_ok ParamType_from_tokens_names)

theorem ParamType_from_string_names_witness:
  "ParamType_from_string ''tuple(uint256 a, bool b)'' False = Inr tuple_a_b
   \<and> names_ok tuple_a_b"
proof -
  have e: "ParamType_from_string ''tuple(uint256 a, bool b)'' False = Inr tuple_a_b"
    by code_simp
  from ParamType_from_string_names [OF e] e show ?thesis
    by simp
qed

end
